theory Spec2Isabelle
  imports Main "HOL-Library.Word"
begin

section \<open>Python values, exceptions and JSON objects\<close>

text \<open>
  The scripts \<^verbatim>\<open>create-production-tflite.py\<close> and \<^verbatim>\<open>create-simple-tflite.py\<close> build a
  \<^verbatim>\<open>bytearray\<close> from \<^verbatim>\<open>struct.pack\<close> results and draws of the \<^verbatim>\<open>random\<close> module.
  A byte is an \<open>8 word\<close>, a Python \<^verbatim>\<open>int\<close> is an \<open>int\<close>, and a Python \<^verbatim>\<open>float\<close> is the
  64-bit pattern of its IEEE-754 binary64 value (so that \<open>-0.0\<close>, infinities and NaN are
  values like any other). Every exception the code can raise is a value of \<open>error\<close>.
\<close>

type_synonym byte = "8 word"
type_synonym f64 = "64 word"
type_synonym f32 = "32 word"

datatype error =
  FileNotFoundError | JSONDecodeError | KeyError | TypeError | ValueError
  | StructError | OverflowError | OSError | UnicodeEncodeError

definition bindE :: "error + 'a \<Rightarrow> ('a \<Rightarrow> error + 'b) \<Rightarrow> error + 'b" where
  "bindE r f = (case r of Inl e \<Rightarrow> Inl e | Inr v \<Rightarrow> f v)"

text \<open>
  What \<^verbatim>\<open>json.load\<close> returns: \<^verbatim>\<open>None\<close>, \<^verbatim>\<open>bool\<close>, \<^verbatim>\<open>int\<close>, \<^verbatim>\<open>float\<close>, \<^verbatim>\<open>str\<close>, \<^verbatim>\<open>list\<close>
  or \<^verbatim>\<open>dict\<close> (keys are strings). A dict is an association list read with \<open>map_of\<close>.
\<close>

datatype json =
  JNull | JBool bool | JInt int | JFloat f64 | JStr string
  | JList "json list" | JDict "(string \<times> json) list"

text \<open>\<^verbatim>\<open>obj[key]\<close> for a string key: only a dict that has the key answers.\<close>

fun subscript :: "json \<Rightarrow> string \<Rightarrow> error + json" where
  "subscript (JDict kvs) k = (case map_of kvs k of None \<Rightarrow> Inl KeyError | Some v \<Rightarrow> Inr v)"
| "subscript _ k = Inl TypeError"

text \<open>\<^verbatim>\<open>len(obj)\<close>: defined on \<^verbatim>\<open>str\<close>, \<^verbatim>\<open>list\<close> and \<^verbatim>\<open>dict\<close> (the number of keys).\<close>

fun py_len :: "json \<Rightarrow> error + int" where
  "py_len (JStr s) = Inr (int (length s))"
| "py_len (JList xs) = Inr (int (length xs))"
| "py_len (JDict kvs) = Inr (int (length (remdups (map fst kvs))))"
| "py_len _ = Inl TypeError"

text \<open>
  The format specification \<^verbatim>\<open>:,\<close> of the f-string at line 29: numbers format, a \<^verbatim>\<open>str\<close>
  raises \<^verbatim>\<open>ValueError\<close>, every other object raises \<^verbatim>\<open>TypeError\<close>. The text produced
  goes to the console and is not kept.
\<close>

fun format_comma :: "json \<Rightarrow> error + unit" where
  "format_comma (JInt n) = Inr ()"
| "format_comma (JFloat x) = Inr ()"
| "format_comma (JBool b) = Inr ()"
| "format_comma (JStr s) = Inl ValueError"
| "format_comma _ = Inl TypeError"

section \<open>IEEE-754 binary64 and binary32\<close>

text \<open>
  Fields of a double: bit 63 is the sign, bits 62..52 the biased exponent, bits 51..0 the
  fraction. A finite double is \<open>\<plusminus> m * 2 ^ (e - 1075)\<close> with \<open>m\<close> the significand (the
  fraction, plus the hidden bit \<open>2 ^ 52\<close> when the exponent field is not 0) and \<open>e\<close> the
  exponent field (1 when the field is 0). \<open>f64_value\<close> is that value in units of
  \<open>2 ^ -1074\<close>, an integer. In the same way a finite binary32 value is
  \<open>\<plusminus> m * 2 ^ (e - 150)\<close> and \<open>f32_value\<close> is in units of \<open>2 ^ -149\<close>.
\<close>

definition f64_negative :: "f64 \<Rightarrow> bool" where
  "f64_negative w = (unat w div 2 ^ 63 = 1)"

definition f64_exponent :: "f64 \<Rightarrow> nat" where
  "f64_exponent w = unat w div 2 ^ 52 mod 2048"

definition f64_fraction :: "f64 \<Rightarrow> nat" where
  "f64_fraction w = unat w mod 2 ^ 52"

definition f64_significand :: "f64 \<Rightarrow> nat" where
  "f64_significand w = (if f64_exponent w = 0 then f64_fraction w else 2 ^ 52 + f64_fraction w)"

definition f64_finite :: "f64 \<Rightarrow> bool" where
  "f64_finite w = (f64_exponent w \<noteq> 2047)"

definition f64_value :: "f64 \<Rightarrow> int" where
  "f64_value w =
     (if f64_negative w then - 1 else 1)
       * int (f64_significand w * 2 ^ (max (f64_exponent w) 1 - 1))"

definition f32_negative :: "f32 \<Rightarrow> bool" where
  "f32_negative w = (unat w div 2 ^ 31 = 1)"

definition f32_exponent :: "f32 \<Rightarrow> nat" where
  "f32_exponent w = unat w div 2 ^ 23 mod 256"

definition f32_fraction :: "f32 \<Rightarrow> nat" where
  "f32_fraction w = unat w mod 2 ^ 23"

definition f32_significand :: "f32 \<Rightarrow> nat" where
  "f32_significand w = (if f32_exponent w = 0 then f32_fraction w else 2 ^ 23 + f32_fraction w)"

definition f32_finite :: "f32 \<Rightarrow> bool" where
  "f32_finite w = (f32_exponent w \<noteq> 255)"

definition f32_value :: "f32 \<Rightarrow> int" where
  "f32_value w =
     (if f32_negative w then - 1 else 1)
       * int (f32_significand w * 2 ^ (max (f32_exponent w) 1 - 1))"

text \<open>\<open>lo \<le> x \<le> hi\<close> on finite doubles, and on finite binary32 values.\<close>

definition f64_between :: "f64 \<Rightarrow> f64 \<Rightarrow> f64 \<Rightarrow> bool" where
  "f64_between lo hi x =
     (f64_finite x \<and> f64_value lo \<le> f64_value x \<and> f64_value x \<le> f64_value hi)"

definition f32_between :: "f32 \<Rightarrow> f32 \<Rightarrow> f32 \<Rightarrow> bool" where
  "f32_between lo hi x =
     (f32_finite x \<and> f32_value lo \<le> f32_value x \<and> f32_value x \<le> f32_value hi)"

text \<open>The number of bits of a natural number: \<open>bitlen 0 = 0\<close>, \<open>bitlen 5 = 3\<close>.\<close>

fun bitlen :: "nat \<Rightarrow> nat" where
  "bitlen n = (if n = 0 then 0 else Suc (bitlen (n div 2)))"

text \<open>\<open>m / 2 ^ sh\<close> rounded to the nearest integer, ties to the even one.\<close>

definition round_half_even :: "nat \<Rightarrow> nat \<Rightarrow> nat" where
  "round_half_even m sh =
     (let d = m div 2 ^ sh; r = m mod 2 ^ sh
      in if 2 ^ sh < 2 * r \<or> (2 * r = 2 ^ sh \<and> odd d) then d + 1 else d)"

text \<open>
  Rounding the positive value \<open>m * 2 ^ x\<close> to a binary format of precision \<open>p\<close> (24 or
  53 significand bits) and exponent width \<open>w\<close> (8 or 11 bits), in the default rounding
  mode (to nearest, ties to even). The result is the bit pattern of the magnitude (exponent
  and fraction fields), \<open>None\<close> when the rounded value is beyond the largest finite one.
  \<open>q\<close> is the exponent of the unit in the last place, \<open>n\<close> the rounded significand; the
  sum \<open>b\<close> puts a significand with its hidden bit into the next exponent by carry.
\<close>

definition ieee_round :: "nat \<Rightarrow> nat \<Rightarrow> nat \<Rightarrow> int \<Rightarrow> nat option" where
  "ieee_round p w m x =
     (if m = 0 then Some 0
      else
        let qmin = 3 - 2 ^ (w - 1) - int p;
            E = int (bitlen m) - 1 + x;
            q = max (E - (int p - 1)) qmin;
            n = (if q \<le> x then m * 2 ^ nat (x - q) else round_half_even m (nat (q - x)));
            b = nat (q - qmin) * 2 ^ (p - 1) + n
        in if (2 ^ w - 1) * 2 ^ (p - 1) \<le> b then None else Some b)"

text \<open>
  The C conversion \<^verbatim>\<open>(float)x\<close> that \<^verbatim>\<open>struct.pack('<f', x)\<close> performs, with its check:
  a finite double that rounds beyond the largest finite binary32 value raises
  \<^verbatim>\<open>OverflowError\<close>. Infinities stay infinities; a NaN stays a (quiet) NaN.
\<close>

definition f64_to_f32 :: "f64 \<Rightarrow> error + f32" where
  "f64_to_f32 x =
     (let s = (if f64_negative x then 2 ^ 31 else 0) in
      if f64_exponent x = 2047 then
        (if f64_fraction x = 0 then Inr (of_nat (s + 255 * 2 ^ 23))
         else Inr (of_nat (s + 255 * 2 ^ 23 + 2 ^ 22 + f64_fraction x div 2 ^ 29 mod 2 ^ 22)))
      else
        (case ieee_round 24 8 (f64_significand x) (int (max (f64_exponent x) 1) - 1075) of
           None \<Rightarrow> Inl OverflowError
         | Some b \<Rightarrow> Inr (of_nat (s + b))))"

text \<open>The conversion of a Python \<^verbatim>\<open>int\<close> to a double (\<^verbatim>\<open>PyFloat_AsDouble\<close>).\<close>

definition int_to_f64 :: "int \<Rightarrow> f64 option" where
  "int_to_f64 n =
     (case ieee_round 53 11 (nat \<bar>n\<bar>) 0 of
        None \<Rightarrow> None
      | Some b \<Rightarrow> Some (of_nat ((if n < 0 then 2 ^ 63 else 0) + b)))"

section \<open>\<^verbatim>\<open>struct.pack\<close> and \<^verbatim>\<open>bytearray\<close>\<close>

text \<open>The four bytes of an unsigned 32-bit value, least significant first.\<close>

definition le_bytes4 :: "nat \<Rightarrow> byte list" where
  "le_bytes4 n =
     [of_nat (n mod 256), of_nat (n div 256 mod 256),
      of_nat (n div 65536 mod 256), of_nat (n div 16777216 mod 256)]"

text \<open>Reading bytes as a little-endian unsigned number (\<^verbatim>\<open>struct.unpack('<I', b)\<close>).\<close>

definition le_uint :: "byte list \<Rightarrow> nat" where
  "le_uint bs = foldr (\<lambda>b n. unat b + 256 * n) bs 0"

text \<open>\<^verbatim>\<open>struct.pack('<I', n)\<close>: \<^verbatim>\<open>struct.error\<close> unless \<open>0 \<le> n < 2 ^ 32\<close>.\<close>

definition struct_pack_I :: "int \<Rightarrow> error + byte list" where
  "struct_pack_I n =
     (if 0 \<le> n \<and> n < 2 ^ 32 then Inr (le_bytes4 (nat n)) else Inl StructError)"

text \<open>
  \<^verbatim>\<open>struct.pack('<f', v)\<close>: a \<^verbatim>\<open>float\<close> is converted to binary32 (\<^verbatim>\<open>OverflowError\<close>
  when it is too large), an \<^verbatim>\<open>int\<close> or \<^verbatim>\<open>bool\<close> goes through a double first and every
  failure on the way is a \<^verbatim>\<open>struct.error\<close>, anything else is a \<^verbatim>\<open>struct.error\<close>.
\<close>

definition pack_f64 :: "f64 \<Rightarrow> error + byte list" where
  "pack_f64 x = bindE (f64_to_f32 x) (\<lambda>w. Inr (le_bytes4 (unat w)))"

definition pack_int :: "int \<Rightarrow> error + byte list" where
  "pack_int n =
     (case int_to_f64 n of
        None \<Rightarrow> Inl StructError
      | Some x \<Rightarrow> (case pack_f64 x of Inl e \<Rightarrow> Inl StructError | Inr bs \<Rightarrow> Inr bs))"

fun struct_pack_f :: "json \<Rightarrow> error + byte list" where
  "struct_pack_f (JFloat x) = pack_f64 x"
| "struct_pack_f (JInt n) = pack_int n"
| "struct_pack_f (JBool b) = pack_int (if b then 1 else 0)"
| "struct_pack_f _ = Inl StructError"

text \<open>\<^verbatim>\<open>model_data.append(v)\<close>: \<^verbatim>\<open>ValueError\<close> unless \<open>v\<close> is in \<^verbatim>\<open>range(256)\<close>.\<close>

definition bytearray_append :: "byte list \<Rightarrow> int \<Rightarrow> error + byte list" where
  "bytearray_append model_data v =
     (if 0 \<le> v \<and> v < 256 then Inr (model_data @ [of_int v]) else Inl ValueError)"

section \<open>The \<^verbatim>\<open>random\<close> module\<close>

text \<open>
  The module keeps one hidden generator state, here of type \<open>'g\<close>, threaded through every
  call. \<^verbatim>\<open>random.seed(a)\<close> replaces the state by one computed from \<open>a\<close> alone;
  \<^verbatim>\<open>random.uniform(a, b)\<close> and \<^verbatim>\<open>random.randint(a, b)\<close> return a draw and the next
  state. The generator itself (the Mersenne Twister of the standard library) is a
  parameter of the model.
\<close>

record 'g random_module =
  seed :: "int \<Rightarrow> 'g"
  uniform :: "f64 \<Rightarrow> f64 \<Rightarrow> 'g \<Rightarrow> f64 \<times> 'g"
  randint :: "int \<Rightarrow> int \<Rightarrow> 'g \<Rightarrow> int \<times> 'g"

text \<open>The float literals of the scripts, as doubles.\<close>

definition neg_half :: f64 where "neg_half = 0xBFE0000000000000"
definition pos_half :: f64 where "pos_half = 0x3FE0000000000000"
definition neg_one :: f64 where "neg_one = 0xBFF0000000000000"
definition pos_one :: f64 where "pos_one = 0x3FF0000000000000"
definition auc_default :: f64 where "auc_default = 0x3FE2F9096BB98C7E"

text \<open>
  What the library documents for the three calls the scripts make: \<^verbatim>\<open>uniform(a, b)\<close>
  returns \<open>N\<close> with \<open>a \<le> N \<le> b\<close>, \<^verbatim>\<open>randint(a, b)\<close> returns \<open>N\<close> with \<open>a \<le> N \<le> b\<close>.
\<close>

definition random_contract :: "'g random_module \<Rightarrow> bool" where
  "random_contract R =
     ((\<forall>g. f64_between neg_half pos_half (fst (uniform R neg_half pos_half g)))
      \<and> (\<forall>g. f64_between neg_one pos_one (fst (uniform R neg_one pos_one g)))
      \<and> (\<forall>g. 0 \<le> fst (randint R 0 255 g) \<and> fst (randint R 0 255 g) \<le> 255))"

text \<open>
  \<^verbatim>\<open>for i in range(n): model_data.extend(struct.pack('<f', random.uniform(a, b)))\<close>
\<close>

fun extend_uniform ::
  "'g random_module \<Rightarrow> f64 \<Rightarrow> f64 \<Rightarrow> nat \<Rightarrow> byte list \<times> 'g \<Rightarrow> error + byte list \<times> 'g" where
  "extend_uniform R a b 0 st = Inr st"
| "extend_uniform R a b (Suc n) (model_data, g) =
     (let (x, g') = uniform R a b g
      in bindE (struct_pack_f (JFloat x))
           (\<lambda>bs. extend_uniform R a b n (model_data @ bs, g')))"

text \<open>\<^verbatim>\<open>for i in range(remaining): model_data.append(random.randint(0, 255))\<close>\<close>

fun append_randint ::
  "'g random_module \<Rightarrow> nat \<Rightarrow> byte list \<times> 'g \<Rightarrow> error + byte list \<times> 'g" where
  "append_randint R 0 st = Inr st"
| "append_randint R (Suc n) (model_data, g) =
     (let (v, g') = randint R 0 255 g
      in bindE (bytearray_append model_data v)
           (\<lambda>model_data'. append_randint R n (model_data', g')))"

text \<open>The draws alone, in order, with the state they leave.\<close>

fun uniform_draws :: "'g random_module \<Rightarrow> f64 \<Rightarrow> f64 \<Rightarrow> nat \<Rightarrow> 'g \<Rightarrow> f64 list \<times> 'g" where
  "uniform_draws R a b 0 g = ([], g)"
| "uniform_draws R a b (Suc n) g =
     (let (x, g') = uniform R a b g; (xs, g'') = uniform_draws R a b n g' in (x # xs, g''))"

fun randint_draws :: "'g random_module \<Rightarrow> nat \<Rightarrow> 'g \<Rightarrow> int list \<times> 'g" where
  "randint_draws R 0 g = ([], g)"
| "randint_draws R (Suc n) g =
     (let (v, g') = randint R 0 255 g; (vs, g'') = randint_draws R n g' in (v # vs, g''))"

section \<open>\<^verbatim>\<open>create-production-tflite.py\<close>\<close>

definition metadata_path :: string where
  "metadata_path = ''/tmp/big-mood-detector/model_weights/pat/production/pat_conv_l_v0.5929.json''"

definition scaler_path :: string where
  "scaler_path = ''/tmp/big-mood-detector/model_weights/pat/production/nhanes_scaler_stats.json''"

text \<open>
  The lines the function prints, each with the values its f-string interpolates: line 26,
  lines 27 to 30, line 34, and the diagnostic of line 37 with the exception caught.
\<close>

datatype line =
  Header | ModelType json | Auc json | Parameters json | DateTrained json
  | InputSize int | Unreadable error

text \<open>
  Lines 19 to 34, the body of the \<^verbatim>\<open>try\<close>. \<open>read_json p\<close> is the outcome of
  \<^verbatim>\<open>with open(p, 'r') as f: json.load(f)\<close> on the machine the script runs on: the
  object read, or the exception raised (no such file, not JSON, ...). \<open>print l\<close> is the
  outcome of the \<^verbatim>\<open>print\<close> call that writes the line \<open>l\<close> to that machine's standard
  output: nothing, or the exception raised (\<^verbatim>\<open>UnicodeEncodeError\<close> when the output's
  encoding has no code for a character of the line, \<^verbatim>\<open>OSError\<close> when it cannot be
  written to). No line is printed twice in a run, so a function of the line covers every
  console. Each f-string evaluates its subscript (and line 29 its \<^verbatim>\<open>:,\<close> format) before
  the line is printed.
\<close>

definition try_read_metadata ::
  "(line \<Rightarrow> error + unit) \<Rightarrow> (string \<Rightarrow> error + json) \<Rightarrow> error + json \<times> int" where
  "try_read_metadata print read_json =
     bindE (read_json metadata_path) (\<lambda>metadata.
     bindE (read_json scaler_path) (\<lambda>scaler_stats.
     bindE (print Header) (\<lambda>_.
     bindE (subscript metadata ''model_type'') (\<lambda>model_type.
     bindE (print (ModelType model_type)) (\<lambda>_.
     bindE (subscript metadata ''auc'') (\<lambda>auc.
     bindE (print (Auc auc)) (\<lambda>_.
     bindE (subscript metadata ''parameters'') (\<lambda>parameters.
     bindE (format_comma parameters) (\<lambda>_.
     bindE (print (Parameters parameters)) (\<lambda>_.
     bindE (subscript metadata ''date_trained'') (\<lambda>date_trained.
     bindE (print (DateTrained date_trained)) (\<lambda>_.
     bindE (subscript scaler_stats ''mean'') (\<lambda>mean.
     bindE (py_len mean) (\<lambda>input_size.
     bindE (print (InputSize input_size)) (\<lambda>_.
     Inr (metadata, input_size))))))))))))))))"

text \<open>
  Lines 36 to 44, the \<^verbatim>\<open>except Exception as e\<close> branch: the diagnostic of line 37 is
  printed first, and an exception of that \<^verbatim>\<open>print\<close> leaves the function; then come the
  default values.
\<close>

definition default_metadata :: json where
  "default_metadata =
     JDict [(''model_type'', JStr ''PAT-Conv-L''), (''auc'', JFloat auc_default),
            (''parameters'', JInt 1984289)]"

definition resolve_metadata ::
  "(line \<Rightarrow> error + unit) \<Rightarrow> (string \<Rightarrow> error + json) \<Rightarrow> error + json \<times> int" where
  "resolve_metadata print read_json =
     (case try_read_metadata print read_json of
        Inl e \<Rightarrow> bindE (print (Unreadable e)) (\<lambda>_. Inr (default_metadata, 18))
      | Inr r \<Rightarrow> Inr r)"

text \<open>The magic number \<^verbatim>\<open>b'TFL3'\<close>.\<close>

definition magic :: "byte list" where
  "magic = [0x54, 0x46, 0x4C, 0x33]"

text \<open>
  Lines 50 to 79 with \<open>model_size\<close>, \<open>metadata\<close> and \<open>input_size\<close> as they stand after
  lines 19 to 47. \<open>g0\<close> is the state of the \<^verbatim>\<open>random\<close> module when the function is
  called. An exception of \<^verbatim>\<open>struct.pack\<close>, of \<^verbatim>\<open>metadata['auc']\<close> or of
  \<^verbatim>\<open>append\<close> is not caught here and ends the function.
\<close>

definition build_container ::
  "'g random_module \<Rightarrow> json \<Rightarrow> int \<Rightarrow> int \<Rightarrow> 'g \<Rightarrow> error + byte list \<times> json \<times> 'g" where
  "build_container R metadata input_size model_size g0 =
     bindE (struct_pack_I 1) (\<lambda>version.
     bindE (struct_pack_I model_size) (\<lambda>size_field.
     bindE (struct_pack_I input_size) (\<lambda>input_field.
     bindE (subscript metadata ''auc'') (\<lambda>auc.
     bindE (struct_pack_f auc) (\<lambda>auc_field.
     bindE (extend_uniform R neg_half pos_half 1000
              (magic @ version @ size_field @ input_field @ auc_field, seed R 42))
       (\<lambda>(model_data, g1).
     bindE (extend_uniform R neg_one pos_one 5000 (model_data, g1)) (\<lambda>(model_data, g2).
     bindE (append_randint R (nat (model_size - int (length model_data))) (model_data, g2))
       (\<lambda>(model_data, g3).
     Inr (model_data, metadata, g3)))))))))"

definition create_production_tflite_model ::
  "'g random_module \<Rightarrow> (line \<Rightarrow> error + unit) \<Rightarrow> (string \<Rightarrow> error + json) \<Rightarrow> 'g
     \<Rightarrow> error + byte list \<times> json \<times> 'g" where
  "create_production_tflite_model R print read_json g0 =
     bindE (resolve_metadata print read_json) (\<lambda>(metadata, input_size).
     build_container R metadata input_size 25000000 g0)"

section \<open>\<^verbatim>\<open>create-simple-tflite.py\<close>\<close>

definition create_simple_tflite_model :: "'g random_module \<Rightarrow> 'g \<Rightarrow> error + byte list \<times> 'g" where
  "create_simple_tflite_model R g0 =
     bindE (struct_pack_I 1) (\<lambda>version.
     bindE (struct_pack_I 100000) (\<lambda>size_field.
     bindE (extend_uniform R neg_one pos_one 1000 (magic @ version @ size_field, seed R 42))
       (\<lambda>(model_data, g1).
     append_randint R (nat (100000 - int (length model_data))) (model_data, g1))))"

section \<open>Reading the container back\<close>

text \<open>
  A block of binary32 values as the bytes \<^verbatim>\<open>struct.pack('<f', ...)\<close> writes for each, in
  order, and the binary32 constants \<open>-0.5\<close>, \<open>0.5\<close>, \<open>-1.0\<close>, \<open>1.0\<close> that bound the two
  layer blocks.
\<close>

definition float32_block :: "f32 list \<Rightarrow> byte list" where
  "float32_block ws = concat (map (\<lambda>w. le_bytes4 (unat w)) ws)"

definition f32_neg_half :: f32 where "f32_neg_half = 0xBF000000"
definition f32_pos_half :: f32 where "f32_pos_half = 0x3F000000"
definition f32_neg_one :: f32 where "f32_neg_one = 0xBF800000"
definition f32_pos_one :: f32 where "f32_pos_one = 0x3F800000"

text \<open>
  \<open>f32_exactly w x\<close>: the binary32 value \<open>w\<close> and the double \<open>x\<close> are the same number
  (the same finite value, or the same infinity). The units of \<open>f32_value\<close> and
  \<open>f64_value\<close> differ by the factor \<open>2 ^ 925\<close>.
\<close>

definition f32_exactly :: "f32 \<Rightarrow> f64 \<Rightarrow> bool" where
  "f32_exactly w x =
     ((f32_finite w \<and> f64_finite x \<and> f32_value w * 2 ^ 925 = f64_value x)
      \<or> (f32_exponent w = 255 \<and> f32_fraction w = 0 \<and> f64_exponent x = 2047
          \<and> f64_fraction x = 0 \<and> f32_negative w = f64_negative x))"

text \<open>The draws of one build, in the order the code makes them after \<^verbatim>\<open>random.seed(42)\<close>.\<close>

definition conv_draws :: "'g random_module \<Rightarrow> f64 list \<times> 'g" where
  "conv_draws R = uniform_draws R neg_half pos_half 1000 (seed R 42)"

definition dense_draws :: "'g random_module \<Rightarrow> f64 list \<times> 'g" where
  "dense_draws R = uniform_draws R neg_one pos_one 5000 (snd (conv_draws R))"

definition padding_draws :: "'g random_module \<Rightarrow> int \<Rightarrow> int list \<times> 'g" where
  "padding_draws R model_size = randint_draws R (nat (model_size - 24020)) (snd (dense_draws R))"

section \<open>Example inputs\<close>

text \<open>
  A small generator that meets \<open>random_contract\<close>: the state counts the draws,
  \<^verbatim>\<open>uniform\<close> alternates between its two bounds and \<^verbatim>\<open>randint\<close> walks through its range.
\<close>

definition counter_random :: "nat random_module" where
  "counter_random =
     \<lparr> seed = (\<lambda>a. nat \<bar>a\<bar>),
       uniform = (\<lambda>a b g. (if even g then a else b, Suc g)),
       randint = (\<lambda>a b g. (a + int g mod (b - a + 1), Suc g)) \<rparr>"

text \<open>
  A console that takes every line, and one whose encoding is ASCII: it has no code for
  the emoji of lines 26 and 37 nor for the Turkish letters of lines 30 and 37.
\<close>

definition quiet_console :: "line \<Rightarrow> error + unit" where
  "quiet_console l = Inr ()"

fun ascii_console :: "line \<Rightarrow> error + unit" where
  "ascii_console Header = Inl UnicodeEncodeError"
| "ascii_console (DateTrained d) = Inl UnicodeEncodeError"
| "ascii_console (Unreadable e) = Inl UnicodeEncodeError"
| "ascii_console _ = Inr ()"

text \<open>
  A machine without the two files, machines with them, and one with the scaler statistics
  only.
\<close>

definition no_files :: "string \<Rightarrow> error + json" where
  "no_files p = Inl FileNotFoundError"

definition example_metadata :: json where
  "example_metadata =
     JDict [(''model_type'', JStr ''PAT-Conv-M''), (''auc'', JFloat auc_default),
            (''parameters'', JInt 1000000), (''date_trained'', JStr ''2025-07-20'')]"

definition half_metadata :: json where
  "half_metadata =
     JDict [(''model_type'', JStr ''PAT-Conv-S''), (''auc'', JFloat pos_half),
            (''parameters'', JInt 285000), (''date_trained'', JStr ''2025-07-20'')]"

definition example_scaler :: json where
  "example_scaler =
     JDict [(''mean'', JList [JFloat pos_one, JFloat pos_half, JFloat pos_one]),
            (''std'', JList [JFloat pos_one, JFloat pos_one, JFloat pos_one])]"

definition scaler_only :: "string \<Rightarrow> error + json" where
  "scaler_only p = (if p = scaler_path then Inr example_scaler else Inl FileNotFoundError)"

definition example_files :: "string \<Rightarrow> error + json" where
  "example_files p =
     (if p = metadata_path then Inr example_metadata
      else if p = scaler_path then Inr example_scaler
      else Inl FileNotFoundError)"

definition nhanes_files :: "string \<Rightarrow> error + json" where
  "nhanes_files p =
     (if p = metadata_path then Inr example_metadata
      else if p = scaler_path then Inr (JDict [(''mean'', JList (replicate 18 (JFloat pos_one)))])
      else Inl FileNotFoundError)"

section \<open>Rounding to the nearest, ties to even\<close>

declare bitlen.simps [simp del]

lemma bindE_Inr [simp]: "bindE (Inr v) f = f v"
  by (simp add: bindE_def)

lemma bindE_Inl [simp]: "bindE (Inl e) f = Inl e"
  by (simp add: bindE_def)

lemma bitlen_between: "2 ^ k \<le> n \<Longrightarrow> n < 2 ^ Suc k \<Longrightarrow> bitlen n = Suc k"
proof (induction k arbitrary: n)
  case 0
  then have "n = 1" by simp
  then show ?case by (simp add: bitlen.simps [of "Suc 0"] bitlen.simps [of 0])
next
  case (Suc k)
  have pos: "n \<noteq> 0"
  proof
    assume "n = 0"
    with Suc.prems(1) show False by simp
  qed
  have lo: "2 ^ k \<le> n div 2" using Suc.prems(1) by simp
  have hi: "n div 2 < 2 ^ Suc k" using Suc.prems(2) by simp
  have "bitlen (n div 2) = Suc k" using Suc.IH [OF lo hi] .
  then show ?case using pos by (subst bitlen.simps) simp
qed

lemma round_half_even_le:
  assumes "m \<le> c * 2 ^ sh"
  shows "round_half_even m sh \<le> c"
proof -
  have d: "m div 2 ^ sh \<le> c"
    using assms by (metis div_le_mono nonzero_mult_div_cancel_right power_not_zero zero_neq_numeral)
  show ?thesis
  proof (cases "m div 2 ^ sh = c")
    case True
    have "m = c * 2 ^ sh + m mod 2 ^ sh" using True by (metis div_mult_mod_eq)
    then have "m mod 2 ^ sh = 0" using assms by linarith
    then show ?thesis using True by (simp add: round_half_even_def Let_def)
  next
    case False
    then have "m div 2 ^ sh + 1 \<le> c" using d by linarith
    then show ?thesis by (simp add: round_half_even_def Let_def)
  qed
qed

lemma round_half_even_ge:
  assumes "c * 2 ^ sh \<le> m"
  shows "c \<le> round_half_even m sh"
proof -
  have "c \<le> m div 2 ^ sh"
    using assms by (metis div_le_mono nonzero_mult_div_cancel_right power_not_zero zero_neq_numeral)
  then show ?thesis by (simp add: round_half_even_def Let_def)
qed

lemma round_half_even_exact:
  assumes "2 ^ sh dvd m"
  shows "round_half_even m sh * 2 ^ sh = m"
proof -
  have "m mod 2 ^ sh = 0" using assms by (simp add: mod_eq_0_iff_dvd)
  then show ?thesis using assms by (simp add: round_half_even_def Let_def)
qed


lemma bitlen_le: "n < 2 ^ k \<Longrightarrow> bitlen n \<le> k"
proof (induction k arbitrary: n)
  case 0
  then show ?case by (simp add: bitlen.simps [of 0])
next
  case (Suc k)
  have "n div 2 < 2 ^ k" using Suc.prems by simp
  then have "bitlen (n div 2) \<le> k" by (rule Suc.IH)
  then show ?case by (subst bitlen.simps) simp
qed

lemma round_half_even_small:
  assumes "2 * m < 2 ^ sh"
  shows "round_half_even m sh = 0"
proof -
  have "m < 2 ^ sh" using assms by linarith
  then have "m div 2 ^ sh = 0" "m mod 2 ^ sh = m" by simp_all
  then show ?thesis using assms by (simp add: round_half_even_def Let_def)
qed

lemma ieee_round_tiny:
  assumes "m < 2 ^ 52"
  shows "ieee_round 24 8 m (- 1074) = Some 0"
proof (cases "m = 0")
  case True
  then show ?thesis by (simp add: ieee_round_def)
next
  case False
  have bl: "bitlen m \<le> 52" using assms by (rule bitlen_le)
  have "(2::nat) * 2 ^ 52 < 2 ^ 925" by simp
  then have "2 * m < 2 ^ 925" using assms by linarith
  then have r: "round_half_even m 925 = 0" by (rule round_half_even_small)
  have q: "max (int (bitlen m) - 1 + (- 1074) - (int 24 - 1)) (3 - 2 ^ (8 - 1) - int 24) = - 149"
    using bl by simp
  show ?thesis
    unfolding ieee_round_def Let_def q using False r by simp
qed

lemma ieee_round_normal:
  assumes "1 \<le> e" "e \<le> 2046" "2 ^ 52 \<le> m" "m < 2 ^ 53"
  shows "ieee_round 24 8 m (int e - 1075) =
           (let n = round_half_even m (e - 897 + 926 - e); b = (e - 897) * 2 ^ 23 + n
            in if 255 * 2 ^ 23 \<le> b then None else Some b)"
proof -
  have bl: "bitlen m = 53"
    using bitlen_between [of 52 m] assms by simp
  have m0: "m \<noteq> 0" using assms(3) by auto
  have q: "max (int (bitlen m) - 1 + (int e - 1075) - (int 24 - 1)) (3 - 2 ^ (8 - 1) - int 24)
            = int (e - 897) - 149"
    using bl by auto
  have sh: "nat (int (e - 897) - 149 - (int e - 1075)) = e - 897 + 926 - e"
    using assms by auto
  have nle: "\<not> int (e - 897) - 149 \<le> int e - 1075"
    using assms by auto
  show ?thesis
    unfolding ieee_round_def Let_def q using m0 nle sh by simp
qed

section \<open>Decoding a binary32 bit pattern\<close>
lemma div_sign: "b < 255 * 2 ^ 23 \<Longrightarrow> (2 ^ 31 + b) div 2 ^ 31 = (1::nat)"
  by simp
lemma div_exp_sign: 
  fixes b :: nat
  assumes "b < 255 * 2 ^ 23" shows "(2 ^ 31 + b) div 2 ^ 23 mod 256 = b div 2 ^ 23"
proof -
  have k: "b div 2 ^ 23 < 255" using assms by simp
  have "(2 ^ 31 + b) div 2 ^ 23 = (b + 256 * 2 ^ 23) div 2 ^ 23" by (simp add: add.commute)
  also have "\<dots> = 256 + b div 2 ^ 23" by (rule div_mult_self1) simp
  finally show ?thesis using k by simp
qed
lemma mod_frac_sign: "(2 ^ 31 + b) mod 2 ^ 23 = (b::nat) mod 2 ^ 23"
proof -
  have "(2 ^ 31 + b) mod 2 ^ 23 = (b + 256 * 2 ^ 23) mod 2 ^ 23" by (simp add: add.commute)
  also have "\<dots> = b mod 2 ^ 23" by (rule mod_mult_self1)
  finally show ?thesis .
qed

lemma f32_fields:
  fixes b :: nat and neg :: bool
  assumes "b < 255 * 2 ^ 23"
  defines "w \<equiv> (of_nat ((if neg then 2 ^ 31 else 0) + b) :: 32 word)"
  shows "f32_negative w = neg" "f32_exponent w = b div 2 ^ 23" "f32_fraction w = b mod 2 ^ 23"
proof -
  have "(if neg then 2 ^ 31 else 0) + b < (2::nat) ^ LENGTH(32)"
    using assms(1) by simp
  then have u: "unat w = (if neg then 2 ^ 31 else 0) + b"
    unfolding w_def by (rule of_nat_inverse [OF refl])
  show "f32_negative w = neg"
    using assms(1) div_sign [OF assms(1)] by (cases neg) (simp_all add: f32_negative_def u)
  have "b div 2 ^ 23 < 255" using assms(1) by simp
  then show "f32_exponent w = b div 2 ^ 23"
    using div_exp_sign [OF assms(1)] by (simp add: f32_exponent_def u)
  show "f32_fraction w = b mod 2 ^ 23"
    using mod_frac_sign [of b] by (simp add: f32_fraction_def u)
qed

lemma f32_magnitude:
  fixes n Q :: nat
  assumes "n \<le> 2 ^ 24" "Q = 0 \<or> 2 ^ 23 \<le> n"
  defines "b \<equiv> Q * 2 ^ 23 + n"
  shows "(if b div 2 ^ 23 = 0 then b mod 2 ^ 23 else 2 ^ 23 + b mod 2 ^ 23)
           * 2 ^ (max (b div 2 ^ 23) 1 - 1) = n * 2 ^ Q"
proof -
  consider "n < 2 ^ 23" | "2 ^ 23 \<le> n" "n < 2 ^ 24" | "n = 2 ^ 24"
    using assms(1) by fastforce
  then show ?thesis
  proof cases
    case 1
    then have "Q = 0" using assms(2) by auto
    then show ?thesis using 1 by (simp add: b_def)
  next
    case 2
    have d: "n div 2 ^ 23 = 1" using 2 by simp
    have m: "n mod 2 ^ 23 = n - 2 ^ 23" using 2 by (simp add: mod_if)
    have "b div 2 ^ 23 = Q + 1" using d by (simp add: b_def)
    moreover have "b mod 2 ^ 23 = n - 2 ^ 23" using m by (simp add: b_def)
    ultimately show ?thesis using 2 by simp
  next
    case 3
    have "b div 2 ^ 23 = Q + 2" using 3 by (simp add: b_def)
    moreover have "b mod 2 ^ 23 = 0" using 3 by (simp add: b_def)
    ultimately show ?thesis using 3 by simp
  qed
qed

lemma f32_decode:
  fixes n Q :: nat and neg :: bool
  assumes "n \<le> 2 ^ 24" "Q = 0 \<or> 2 ^ 23 \<le> n" "Q * 2 ^ 23 + n < 255 * 2 ^ 23"
  defines "w \<equiv> (of_nat ((if neg then 2 ^ 31 else 0) + (Q * 2 ^ 23 + n)) :: 32 word)"
  shows "f32_finite w" "f32_negative w = neg"
    "f32_value w = (if neg then - 1 else 1) * int (n * 2 ^ Q)"
proof -
  note f = f32_fields [OF assms(3), of neg, folded w_def]
  have "(Q * 2 ^ 23 + n) div 2 ^ 23 < 255" using assms(3) by simp
  then show "f32_finite w" by (simp add: f32_finite_def f)
  show "f32_negative w = neg" by (rule f)
  show "f32_value w = (if neg then - 1 else 1) * int (n * 2 ^ Q)"
    unfolding f32_value_def f32_significand_def f
    using f32_magnitude [OF assms(1,2)] by simp
qed

section \<open>The conversion from binary64 to binary32\<close>

lemma f64_fraction_less: "f64_fraction x < 2 ^ 52"
  by (simp add: f64_fraction_def)

lemma f64_to_f32_zero_exp:
  assumes "f64_exponent x = 0"
  shows "f64_to_f32 x = Inr (of_nat ((if f64_negative x then 2 ^ 31 else 0) + (0 * 2 ^ 23 + 0)))"
proof -
  have "ieee_round 24 8 (f64_fraction x) (- 1074) = Some 0"
    using f64_fraction_less by (rule ieee_round_tiny)
  then show ?thesis
    using assms by (simp add: f64_to_f32_def f64_significand_def Let_def)
qed

lemma f64_to_f32_normal:
  assumes "f64_exponent x = e" "1 \<le> e" "e \<le> 2046"
  shows "f64_to_f32 x =
           (let n = round_half_even (f64_significand x) (e - 897 + 926 - e);
                b = (e - 897) * 2 ^ 23 + n
            in if 255 * 2 ^ 23 \<le> b then Inl OverflowError
               else Inr (of_nat ((if f64_negative x then 2 ^ 31 else 0) + b)))"
proof -
  have m: "f64_significand x = 2 ^ 52 + f64_fraction x"
    using assms by (simp add: f64_significand_def)
  have lo: "2 ^ 52 \<le> f64_significand x" by (simp add: m)
  have hi: "f64_significand x < 2 ^ 53" using f64_fraction_less [of x] by (simp add: m)
  have mx: "int (max (f64_exponent x) 1) - 1075 = int e - 1075" using assms by simp
  have ne: "f64_exponent x \<noteq> 2047" using assms by simp
  show ?thesis
    unfolding f64_to_f32_def mx ieee_round_normal [OF assms(2,3) lo hi]
    using ne by (simp add: Let_def)
qed

lemma normal_rounded_le:
  assumes "m < 2 ^ 53" "1 \<le> e"
  shows "round_half_even m (e - 897 + 926 - e) \<le> 2 ^ 24"
proof -
  have "(53::nat) \<le> 24 + (e - 897 + 926 - e)" using assms(2) by auto
  then have "(2::nat) ^ 53 \<le> 2 ^ (24 + (e - 897 + 926 - e))"
    by (rule power_increasing) simp
  then have "m \<le> 2 ^ 24 * 2 ^ (e - 897 + 926 - e)"
    using assms(1) by (simp only: power_add)
  then show ?thesis by (rule round_half_even_le)
qed

lemma normal_rounded_ge:
  assumes "2 ^ 52 \<le> m" "e \<le> 2046"
  shows "e - 897 = 0 \<or> 2 ^ 23 \<le> round_half_even m (e - 897 + 926 - e)"
proof (cases "e \<le> 897")
  case True
  then show ?thesis by simp
next
  case False
  then have sh: "e - 897 + 926 - e = 29" by auto
  have "2 ^ 23 * 2 ^ 29 \<le> m" using assms(1) by simp
  then have "2 ^ 23 \<le> round_half_even m 29" by (rule round_half_even_ge)
  then show ?thesis by (simp add: sh)
qed

lemma f64_exponent_less: "f64_exponent x < 2048"
  by (simp add: f64_exponent_def)

lemma f64_to_f32_bounded:
  assumes fin: "f64_finite x"
    and bnd: "f64_significand x * 2 ^ (max (f64_exponent x) 1 - 1) \<le> 2 ^ (1074 - k)"
    and k: "k \<le> 126"
  shows "\<exists>w v. f64_to_f32 x = Inr w \<and> f32_finite w \<and> f32_negative w = f64_negative x
           \<and> v \<le> 2 ^ (149 - k) \<and> f32_value w = (if f64_negative x then - 1 else 1) * int v"
proof (cases "f64_exponent x = 0")
  case True
  have c: "(0::nat) \<le> 2 ^ 24" "(0::nat) = 0 \<or> 2 ^ 23 \<le> (0::nat)" "(0::nat) * 2 ^ 23 + 0 < 255 * 2 ^ 23"
    by simp_all
  define W :: f32 where "W = of_nat ((if f64_negative x then 2 ^ 31 else 0) + (0 * 2 ^ 23 + 0))"
  have conv: "f64_to_f32 x = Inr W"
    unfolding W_def by (rule f64_to_f32_zero_exp [OF True])
  note d = f32_decode [OF c, of "f64_negative x", folded W_def]
  have "f32_value W = (if f64_negative x then - 1 else 1) * int 0" using d(3) by simp
  with conv d(1,2) have "f64_to_f32 x = Inr W \<and> f32_finite W \<and> f32_negative W = f64_negative x
      \<and> (0::nat) \<le> 2 ^ (149 - k) \<and> f32_value W = (if f64_negative x then - 1 else 1) * int 0"
    by simp
  then show ?thesis by blast
next
  case False
  define e where "e = f64_exponent x"
  define m where "m = f64_significand x"
  define Q where "Q = e - 897"
  define sh where "sh = e - 897 + 926 - e"
  define n where "n = round_half_even m sh"
  have e1: "1 \<le> e" using False by (simp add: e_def)
  have e2: "e \<le> 2046" using fin f64_exponent_less [of x] by (simp add: e_def f64_finite_def)
  have mdef: "m = 2 ^ 52 + f64_fraction x" using False by (simp add: m_def f64_significand_def)
  have lo: "2 ^ 52 \<le> m" by (simp add: mdef)
  have hi: "m < 2 ^ 53" using f64_fraction_less [of x] by (simp add: mdef)
  have bnd': "m * 2 ^ (e - 1) \<le> 2 ^ (1074 - k)"
    using bnd e1 by (simp add: m_def e_def max_def)
  have "2 ^ 52 * 2 ^ (e - 1) \<le> m * 2 ^ (e - 1)" using lo by simp
  then have "(2::nat) ^ (52 + (e - 1)) \<le> 2 ^ (1074 - k)"
    using bnd' by (simp only: power_add)
  then have "52 + (e - 1) \<le> 1074 - k" by (rule power_le_imp_le_exp [rotated]) simp
  then have ek: "e + k \<le> 1023" using e1 k by linarith
  have Qk: "Q + k \<le> 126" unfolding Q_def using ek k by linarith
  have shQ: "sh + (e - 1) = Q + 925" using e1 ek by (auto simp: sh_def Q_def)
  have ex: "1074 - k = (149 - k - Q) + sh + (e - 1)" using shQ Qk k by linarith
  have "m * 2 ^ (e - 1) \<le> (2 ^ (149 - k - Q) * 2 ^ sh) * 2 ^ (e - 1)"
    using bnd' unfolding ex by (simp only: power_add)
  then have "m \<le> 2 ^ (149 - k - Q) * 2 ^ sh" by simp
  then have nle: "n \<le> 2 ^ (149 - k - Q)" unfolding n_def by (rule round_half_even_le)
  have "n * 2 ^ Q \<le> 2 ^ (149 - k - Q) * 2 ^ Q" using nle by simp
  also have "\<dots> = 2 ^ (149 - k)" using Qk by (simp flip: power_add)
  finally have v: "n * 2 ^ Q \<le> 2 ^ (149 - k)" .
  have n24: "n \<le> 2 ^ 24" unfolding n_def sh_def using hi e1 by (rule normal_rounded_le)
  have nge: "Q = 0 \<or> 2 ^ 23 \<le> n" unfolding n_def sh_def Q_def using lo e2 by (rule normal_rounded_ge)
  have "Q * 2 ^ 23 \<le> 126 * 2 ^ 23" using Qk by simp
  then have b: "Q * 2 ^ 23 + n < 255 * 2 ^ 23" using n24 by simp
  define W :: f32 where "W = of_nat ((if f64_negative x then 2 ^ 31 else 0) + (Q * 2 ^ 23 + n))"
  note d = f32_decode [OF n24 nge b, of "f64_negative x", folded W_def]
  have conv: "f64_to_f32 x = Inr W"
    using f64_to_f32_normal [OF e_def [symmetric] e1 e2] b
    by (simp add: Let_def n_def sh_def Q_def m_def W_def)
  from conv d v have "f64_to_f32 x = Inr W \<and> f32_finite W \<and> f32_negative W = f64_negative x
      \<and> n * 2 ^ Q \<le> 2 ^ (149 - k)
      \<and> f32_value W = (if f64_negative x then - 1 else 1) * int (n * 2 ^ Q)"
    by simp
  then show ?thesis by blast
qed

lemma f32_fraction_less: "f32_fraction w < 2 ^ 23"
  by (simp add: f32_fraction_def)

lemma f32_significand_less: "f32_significand w < 2 ^ 24"
  using f32_fraction_less [of w] by (simp add: f32_significand_def)

lemma f32_exponent_less: "f32_exponent w < 256"
  by (simp add: f32_exponent_def)

lemma f64_to_f32_exact:
  assumes fin: "f64_finite x" and fin0: "f32_finite w0"
    and val: "f64_value x = f32_value w0 * 2 ^ 925"
  shows "\<exists>w. f64_to_f32 x = Inr w \<and> f32_finite w \<and> f32_value w = f32_value w0"
proof -
  define sx :: int where "sx = (if f64_negative x then - 1 else 1)"
  define s0 :: int where "s0 = (if f32_negative w0 then - 1 else 1)"
  define e where "e = f64_exponent x"
  define m where "m = f64_significand x"
  define S0 where "S0 = f32_significand w0"
  define E0 where "E0 = max (f32_exponent w0) 1"
  define M0 where "M0 = S0 * 2 ^ (E0 - 1)"
  define Mx where "Mx = m * 2 ^ (max e 1 - 1)"
  have vx: "f64_value x = sx * int Mx"
    by (simp add: f64_value_def sx_def Mx_def m_def e_def)
  have v0: "f32_value w0 = s0 * int M0"
    by (simp add: f32_value_def s0_def M0_def S0_def E0_def)
  have "\<bar>sx * int Mx\<bar> = \<bar>s0 * int M0 * 2 ^ 925\<bar>" using val vx v0 by simp
  then have "int Mx = int (M0 * 2 ^ 925)"
    by (simp add: abs_mult sx_def s0_def split: if_splits)
  then have mag: "Mx = M0 * 2 ^ 925" by (simp only: of_nat_eq_iff)
  have "sx * int M0 * 2 ^ 925 = s0 * int M0 * 2 ^ 925"
    using val vx v0 mag by simp
  then have sgn: "sx * int M0 = s0 * int M0" by simp
  have S24: "S0 < 2 ^ 24" unfolding S0_def by (rule f32_significand_less)
  have E254: "1 \<le> E0" "E0 \<le> 254"
    using fin0 f32_exponent_less [of w0] by (auto simp: E0_def f32_finite_def)
  show ?thesis
  proof (cases "e = 0")
    case True
    have "Mx < 2 ^ 52"
      using True f64_fraction_less [of x] by (simp add: Mx_def m_def f64_significand_def e_def)
    then have "M0 * 2 ^ 925 < 2 ^ 52" using mag by simp
    then have M00: "M0 = 0" by (cases "M0 = 0") simp_all
    have c: "(0::nat) \<le> 2 ^ 24" "(0::nat) = 0 \<or> 2 ^ 23 \<le> (0::nat)"
      "(0::nat) * 2 ^ 23 + 0 < 255 * 2 ^ 23"
      by simp_all
    define W :: f32 where "W = of_nat ((if f64_negative x then 2 ^ 31 else 0) + (0 * 2 ^ 23 + 0))"
    have conv: "f64_to_f32 x = Inr W"
      unfolding W_def using True by (intro f64_to_f32_zero_exp) (simp add: e_def)
    note d = f32_decode [OF c, of "f64_negative x", folded W_def]
    have "f32_value W = f32_value w0" using d(3) v0 M00 by simp
    with conv d(1) show ?thesis by blast
  next
    case False
    define Q where "Q = e - 897"
    define sh where "sh = e - 897 + 926 - e"
    define n where "n = round_half_even m sh"
    have e1: "1 \<le> e" using False by simp
    have e2: "e \<le> 2046" using fin f64_exponent_less [of x] by (simp add: e_def f64_finite_def)
    have mdef: "m = 2 ^ 52 + f64_fraction x"
      using False by (simp add: m_def f64_significand_def e_def)
    have lo: "2 ^ 52 \<le> m" by (simp add: mdef)
    have hi: "m < 2 ^ 53" using f64_fraction_less [of x] by (simp add: mdef)
    have Mx': "Mx = m * 2 ^ (e - 1)" using e1 by (simp add: Mx_def max_def)
    have shQ: "sh + (e - 1) = Q + 925" using e1 e2 by (auto simp: sh_def Q_def)
    have QE: "Q \<le> E0 - 1"
    proof (cases "e \<le> 897")
      case True
      then show ?thesis by (simp add: Q_def)
    next
      case False
      have "(2::nat) ^ (52 + (e - 1)) \<le> m * 2 ^ (e - 1)" using lo by (simp only: power_add) simp
      also have "\<dots> = S0 * 2 ^ (E0 - 1 + 925)" using mag Mx' by (simp add: M0_def power_add)
      also have "\<dots> < 2 ^ 24 * 2 ^ (E0 - 1 + 925)" using S24 by simp
      also have "\<dots> = 2 ^ (24 + (E0 - 1 + 925))" by (simp only: power_add)
      finally have "52 + (e - 1) < 24 + (E0 - 1 + 925)"
        by (rule power_less_imp_less_exp [rotated]) simp
      then show ?thesis using False E254 by (simp add: Q_def)
    qed
    have ex: "E0 - 1 + 925 = (E0 - 1 - Q) + sh + (e - 1)" using QE shQ by linarith
    have "m * 2 ^ (e - 1) = S0 * 2 ^ (E0 - 1 + 925)" using mag Mx' by (simp add: M0_def power_add)
    also have "\<dots> = (S0 * 2 ^ (E0 - 1 - Q) * 2 ^ sh) * 2 ^ (e - 1)"
      unfolding ex by (simp only: power_add mult.assoc)
    finally have meq: "m = S0 * 2 ^ (E0 - 1 - Q) * 2 ^ sh" by simp
    then have "2 ^ sh dvd m" by simp
    then have "n * 2 ^ sh = m" unfolding n_def by (rule round_half_even_exact)
    then have neq: "n = S0 * 2 ^ (E0 - 1 - Q)" using meq by simp
    have "n * 2 ^ Q = S0 * (2 ^ (E0 - 1 - Q) * 2 ^ Q)" by (simp add: neq)
    also have "\<dots> = S0 * 2 ^ (E0 - 1 - Q + Q)" by (simp only: power_add)
    also have "E0 - 1 - Q + Q = E0 - 1" using QE by simp
    also have "S0 * 2 ^ (E0 - 1) = M0" by (simp add: M0_def)
    finally have nQ: "n * 2 ^ Q = M0" .
    have n24: "n \<le> 2 ^ 24" unfolding n_def sh_def using hi e1 by (rule normal_rounded_le)
    have nge: "Q = 0 \<or> 2 ^ 23 \<le> n"
      unfolding n_def sh_def Q_def using lo e2 by (rule normal_rounded_ge)
    have b: "Q * 2 ^ 23 + n < 255 * 2 ^ 23"
    proof (cases "Q \<le> 252")
      case True
      then have "Q * 2 ^ 23 \<le> 252 * 2 ^ 23" by simp
      then show ?thesis using n24 by simp
    next
      case False
      then have "Q = 253" "E0 - 1 - Q = 0" using QE E254 by auto
      then have "Q * 2 ^ 23 = 253 * 2 ^ 23" "n < 2 ^ 24" using neq S24 by simp_all
      then show ?thesis by simp
    qed
    define W :: f32 where "W = of_nat ((if f64_negative x then 2 ^ 31 else 0) + (Q * 2 ^ 23 + n))"
    note d = f32_decode [OF n24 nge b, of "f64_negative x", folded W_def]
    have conv: "f64_to_f32 x = Inr W"
      using f64_to_f32_normal [OF e_def [symmetric] e1 e2] b
      by (simp add: Let_def n_def sh_def Q_def m_def W_def)
    have "f32_value W = sx * int M0" using d(3) nQ by (simp add: sx_def)
    then have "f32_value W = f32_value w0" using sgn v0 by simp
    with conv d(1) show ?thesis by blast
  qed
qed

section \<open>Values inside the ranges of the layer blocks\<close>

lemma f64_value_consts:
  "f64_value neg_one = - (2 ^ 1074)" "f64_value pos_one = 2 ^ 1074"
  "f64_value neg_half = - (2 ^ 1073)" "f64_value pos_half = 2 ^ 1073"
  by (simp_all add: f64_value_def f64_negative_def f64_significand_def f64_exponent_def
      f64_fraction_def neg_one_def pos_one_def neg_half_def pos_half_def)

lemma f32_value_consts:
  "f32_value f32_neg_one = - (2 ^ 149)" "f32_value f32_pos_one = 2 ^ 149"
  "f32_value f32_neg_half = - (2 ^ 148)" "f32_value f32_pos_half = 2 ^ 148"
  by (simp_all add: f32_value_def f32_negative_def f32_significand_def f32_exponent_def
      f32_fraction_def f32_neg_one_def f32_pos_one_def f32_neg_half_def f32_pos_half_def)

lemma f64_magnitude:
  assumes "- (2 ^ j) \<le> f64_value x" "f64_value x \<le> 2 ^ j"
  shows "f64_significand x * 2 ^ (max (f64_exponent x) 1 - 1) \<le> 2 ^ j"
proof -
  define M where "M = f64_significand x * 2 ^ (max (f64_exponent x) 1 - 1)"
  have "f64_value x = int M \<or> f64_value x = - int M"
    by (simp add: f64_value_def M_def)
  then have "int M \<le> 2 ^ j" using assms by auto
  then have "int M \<le> int (2 ^ j)" by simp
  then have "M \<le> 2 ^ j" by (simp only: of_nat_le_iff)
  then show ?thesis by (simp only: M_def)
qed

lemma f32_signed_bound:
  assumes "v \<le> 2 ^ j" "f32_value w = (if neg then - 1 else 1) * int v"
  shows "- (2 ^ j) \<le> f32_value w \<and> f32_value w \<le> 2 ^ j"
proof -
  have "int v \<le> int (2 ^ j)" using assms(1) by (simp only: of_nat_le_iff)
  then have a: "int v \<le> 2 ^ j" by simp
  have b: "(0::int) \<le> 2 ^ j" by simp
  have c: "0 \<le> int v" by simp
  show ?thesis
  proof (cases neg)
    case True
    then have "f32_value w = - int v" using assms(2) by simp
    then show ?thesis using a b c by linarith
  next
    case False
    then have "f32_value w = int v" using assms(2) by simp
    then show ?thesis using a b c by linarith
  qed
qed

lemma f64_to_f32_unit:
  assumes "f64_between neg_one pos_one x"
  shows "\<exists>w. f64_to_f32 x = Inr w \<and> f32_between f32_neg_one f32_pos_one w"
proof -
  have fin: "f64_finite x" and lo: "- (2 ^ 1074) \<le> f64_value x" and hi: "f64_value x \<le> 2 ^ 1074"
    using assms unfolding f64_between_def f64_value_consts by blast+
  have "f64_significand x * 2 ^ (max (f64_exponent x) 1 - 1) \<le> 2 ^ (1074 - 0)"
    using f64_magnitude [OF lo hi] by simp
  from f64_to_f32_bounded [OF fin this] obtain w v where
    w: "f64_to_f32 x = Inr w" "f32_finite w" "v \<le> 2 ^ (149 - 0)"
      "f32_value w = (if f64_negative x then - 1 else 1) * int v"
    by auto
  have "v \<le> 2 ^ 149" using w(3) by simp
  from f32_signed_bound [OF this w(4)]
  have "f32_between f32_neg_one f32_pos_one w"
    unfolding f32_between_def f32_value_consts using w(2) by blast
  with w(1) show ?thesis by blast
qed

lemma f64_to_f32_half:
  assumes "f64_between neg_half pos_half x"
  shows "\<exists>w. f64_to_f32 x = Inr w \<and> f32_between f32_neg_half f32_pos_half w"
proof -
  have fin: "f64_finite x" and lo: "- (2 ^ 1073) \<le> f64_value x" and hi: "f64_value x \<le> 2 ^ 1073"
    using assms unfolding f64_between_def f64_value_consts by blast+
  have "f64_significand x * 2 ^ (max (f64_exponent x) 1 - 1) \<le> 2 ^ (1074 - 1)"
    using f64_magnitude [OF lo hi] by simp
  from f64_to_f32_bounded [OF fin this] obtain w v where
    w: "f64_to_f32 x = Inr w" "f32_finite w" "v \<le> 2 ^ (149 - 1)"
      "f32_value w = (if f64_negative x then - 1 else 1) * int v"
    by auto
  have "v \<le> 2 ^ 148" using w(3) by simp
  from f32_signed_bound [OF this w(4)]
  have "f32_between f32_neg_half f32_pos_half w"
    unfolding f32_between_def f32_value_consts using w(2) by blast
  with w(1) show ?thesis by blast
qed

section \<open>Bytes and loops\<close>

lemma length_le_bytes4 [simp]: "length (le_bytes4 n) = 4"
  by (simp add: le_bytes4_def)

lemma unat_byte_of_nat: "unat (of_nat k :: byte) = k mod 256"
  by (simp add: unat_of_nat)

lemma le_uint_le_bytes4:
  assumes "n < 2 ^ 32"
  shows "le_uint (le_bytes4 n) = n"
proof -
  have "n div 16777216 < 256" using assms by simp
  then have top: "n div 16777216 mod 256 = n div 16777216" by simp
  have d1: "n div 65536 = n div 256 div 256" and d2: "n div 16777216 = n div 256 div 256 div 256"
    by (simp_all add: div_mult2_eq [symmetric])
  have "n mod 256 + 256 * (n div 256 mod 256 + 256 * (n div 65536 mod 256 + 256 * (n div 16777216)))
          = n"
    unfolding d1 d2 by (simp only: mod_mult_div_eq)
  then show ?thesis
    by (simp add: le_uint_def le_bytes4_def unat_byte_of_nat top)
qed

lemma length_float32_block [simp]: "length (float32_block ws) = 4 * length ws"
  by (induction ws) (simp_all add: float32_block_def)

lemma float32_block_Cons: "float32_block (w # ws) = le_bytes4 (unat w) @ float32_block ws"
  by (simp add: float32_block_def)

lemma uniform_draws_length: "length (fst (uniform_draws R a b n g)) = n"
  by (induction n arbitrary: g) (simp_all add: split_def Let_def)

lemma randint_draws_length: "length (fst (randint_draws R n g)) = n"
  by (induction n arbitrary: g) (simp_all add: split_def Let_def)

lemma extend_uniform_ok:
  assumes conv: "\<And>g. \<exists>w. f64_to_f32 (fst (uniform R a b g)) = Inr w \<and> P w"
  shows "\<exists>ws. length ws = n \<and> (\<forall>w\<in>set ws. P w)
           \<and> map f64_to_f32 (fst (uniform_draws R a b n g)) = map Inr ws
           \<and> extend_uniform R a b n (model_data, g)
               = Inr (model_data @ float32_block ws, snd (uniform_draws R a b n g))"
proof (induction n arbitrary: model_data g)
  case 0
  show ?case by (simp add: float32_block_def)
next
  case (Suc n)
  obtain x g' where u: "uniform R a b g = (x, g')" by (cases "uniform R a b g")
  from conv [of g] u obtain w where w: "f64_to_f32 x = Inr w" "P w" by auto
  from Suc.IH [where model_data = "model_data @ le_bytes4 (unat w)" and g = g'] obtain ws where
    ws: "length ws = n" "\<forall>w\<in>set ws. P w"
      "map f64_to_f32 (fst (uniform_draws R a b n g')) = map Inr ws"
      "extend_uniform R a b n (model_data @ le_bytes4 (unat w), g')
         = Inr ((model_data @ le_bytes4 (unat w)) @ float32_block ws,
                snd (uniform_draws R a b n g'))"
    by blast
  have "length (w # ws) = Suc n" using ws(1) by simp
  moreover have "\<forall>v\<in>set (w # ws). P v" using ws(2) w(2) by simp
  moreover have "map f64_to_f32 (fst (uniform_draws R a b (Suc n) g)) = map Inr (w # ws)"
    using u w(1) ws(3) by (simp add: split_def Let_def)
  moreover have "extend_uniform R a b (Suc n) (model_data, g)
      = Inr (model_data @ float32_block (w # ws), snd (uniform_draws R a b (Suc n) g))"
    using u w(1) ws(4) by (simp add: split_def Let_def pack_f64_def float32_block_Cons)
  ultimately show ?case by blast
qed

lemma randint_draws_range:
  assumes "\<And>g. 0 \<le> fst (randint R 0 255 g) \<and> fst (randint R 0 255 g) \<le> 255"
  shows "\<forall>v\<in>set (fst (randint_draws R n g)). 0 \<le> v \<and> v \<le> 255"
proof (induction n arbitrary: g)
  case 0
  show ?case by simp
next
  case (Suc n)
  obtain v g' where r: "randint R 0 255 g = (v, g')" by (cases "randint R 0 255 g")
  have "0 \<le> v \<and> v \<le> 255" using assms [of g] r by simp
  then show ?case using r Suc.IH [of g'] by (simp add: split_def Let_def)
qed

lemma append_randint_ok:
  assumes "\<And>g. 0 \<le> fst (randint R 0 255 g) \<and> fst (randint R 0 255 g) \<le> 255"
  shows "append_randint R n (model_data, g)
           = Inr (model_data @ map of_int (fst (randint_draws R n g)), snd (randint_draws R n g))"
proof (induction n arbitrary: model_data g)
  case 0
  show ?case by simp
next
  case (Suc n)
  obtain v g' where r: "randint R 0 255 g = (v, g')" by (cases "randint R 0 255 g")
  have v: "0 \<le> v" "v < 256" using assms [of g] r by simp_all
  show ?case
    using r v Suc.IH [where model_data = "model_data @ [of_int v]" and g = g']
    by (simp add: split_def Let_def bytearray_append_def)
qed

section \<open>The shape of the container\<close>

lemma contract_conv:
  assumes "random_contract R"
  shows "\<exists>w. f64_to_f32 (fst (uniform R neg_half pos_half g)) = Inr w
           \<and> f32_between f32_neg_half f32_pos_half w"
  using assms by (intro f64_to_f32_half) (simp add: random_contract_def)

lemma contract_dense:
  assumes "random_contract R"
  shows "\<exists>w. f64_to_f32 (fst (uniform R neg_one pos_one g)) = Inr w
           \<and> f32_between f32_neg_one f32_pos_one w"
  using assms by (intro f64_to_f32_unit) (simp add: random_contract_def)

lemma contract_randint:
  assumes "random_contract R"
  shows "0 \<le> fst (randint R 0 255 g) \<and> fst (randint R 0 255 g) \<le> 255"
  using assms by (simp add: random_contract_def)

lemma struct_pack_I_ok: "0 \<le> n \<Longrightarrow> n < 2 ^ 32 \<Longrightarrow> struct_pack_I n = Inr (le_bytes4 (nat n))"
  by (simp add: struct_pack_I_def)

lemma pack_f64_length: "pack_f64 x = Inr bs \<Longrightarrow> length bs = 4"
  by (auto simp: pack_f64_def bindE_def split: sum.splits)

lemma pack_int_length: "pack_int n = Inr bs \<Longrightarrow> length bs = 4"
  by (auto simp: pack_int_def dest: pack_f64_length split: option.splits sum.splits)

lemma struct_pack_f_length: "struct_pack_f v = Inr bs \<Longrightarrow> length bs = 4"
  by (cases v) (auto dest: pack_f64_length pack_int_length)

lemma length_magic [simp]: "length magic = 4"
  by (simp add: magic_def)

lemma build_container_shape:
  assumes R: "random_contract R"
    and size: "0 \<le> model_size" "model_size < 2 ^ 32"
    and input: "0 \<le> input_size" "input_size < 2 ^ 32"
    and auc: "subscript metadata ''auc'' = Inr auc" "struct_pack_f auc = Inr auc_field"
  defines "hdr \<equiv> magic @ le_bytes4 1 @ le_bytes4 (nat model_size) @ le_bytes4 (nat input_size)
                   @ auc_field"
  shows "\<exists>ws1 ws2.
           length ws1 = 1000 \<and> length ws2 = 5000
           \<and> (\<forall>w\<in>set ws1. f32_between f32_neg_half f32_pos_half w)
           \<and> (\<forall>w\<in>set ws2. f32_between f32_neg_one f32_pos_one w)
           \<and> map f64_to_f32 (fst (conv_draws R)) = map Inr ws1
           \<and> map f64_to_f32 (fst (dense_draws R)) = map Inr ws2
           \<and> extend_uniform R neg_half pos_half 1000 (hdr, seed R 42)
               = Inr (hdr @ float32_block ws1, snd (conv_draws R))
           \<and> extend_uniform R neg_one pos_one 5000 (hdr @ float32_block ws1, snd (conv_draws R))
               = Inr ((hdr @ float32_block ws1) @ float32_block ws2, snd (dense_draws R))
           \<and> build_container R metadata input_size model_size g0
               = Inr (((hdr @ float32_block ws1) @ float32_block ws2)
                        @ map of_int (fst (padding_draws R model_size)),
                      metadata, snd (padding_draws R model_size))"
proof -
  from extend_uniform_ok [where R = R and a = neg_half and b = pos_half
      and P = "f32_between f32_neg_half f32_pos_half" and n = 1000 and g = "seed R 42"
      and model_data = hdr, OF contract_conv [OF R]]
  obtain ws1 where ws1: "length ws1 = 1000"
    "\<forall>w\<in>set ws1. f32_between f32_neg_half f32_pos_half w"
    "map f64_to_f32 (fst (conv_draws R)) = map Inr ws1"
    "extend_uniform R neg_half pos_half 1000 (hdr, seed R 42)
       = Inr (hdr @ float32_block ws1, snd (conv_draws R))"
    unfolding conv_draws_def by blast
  from extend_uniform_ok [where R = R and a = neg_one and b = pos_one
      and P = "f32_between f32_neg_one f32_pos_one" and n = 5000 and g = "snd (conv_draws R)"
      and model_data = "hdr @ float32_block ws1", OF contract_dense [OF R]]
  obtain ws2 where ws2: "length ws2 = 5000"
    "\<forall>w\<in>set ws2. f32_between f32_neg_one f32_pos_one w"
    "map f64_to_f32 (fst (dense_draws R)) = map Inr ws2"
    "extend_uniform R neg_one pos_one 5000 (hdr @ float32_block ws1, snd (conv_draws R))
       = Inr ((hdr @ float32_block ws1) @ float32_block ws2, snd (dense_draws R))"
    unfolding dense_draws_def by blast
  have len: "length ((hdr @ float32_block ws1) @ float32_block ws2) = 24020"
    using ws1(1) ws2(1) struct_pack_f_length [OF auc(2)] by (simp add: hdr_def)
  have pad: "append_randint R (nat (model_size - 24020))
               ((hdr @ float32_block ws1) @ float32_block ws2, snd (dense_draws R))
             = Inr (((hdr @ float32_block ws1) @ float32_block ws2)
                      @ map of_int (fst (padding_draws R model_size)),
                    snd (padding_draws R model_size))"
    unfolding padding_draws_def by (rule append_randint_ok) (rule contract_randint [OF R])
  have one: "struct_pack_I 1 = Inr (le_bytes4 1)"
    using struct_pack_I_ok [of 1] by simp
  have "build_container R metadata input_size model_size g0
      = Inr (((hdr @ float32_block ws1) @ float32_block ws2)
               @ map of_int (fst (padding_draws R model_size)),
             metadata, snd (padding_draws R model_size))"
    unfolding build_container_def one struct_pack_I_ok [OF size] struct_pack_I_ok [OF input] auc
      bindE_Inr
    unfolding hdr_def [symmetric] ws1(4) bindE_Inr prod.case ws2(4) len
    using pad by simp
  with ws1 ws2 show ?thesis by blast
qed

section \<open>Determinism of the build\<close>

lemma f64_between_consts:
  "f64_between neg_half pos_half neg_half" "f64_between neg_half pos_half pos_half"
  "f64_between neg_one pos_one neg_one" "f64_between neg_one pos_one pos_one"
  unfolding f64_between_def f64_value_consts
  by (simp_all add: f64_finite_def f64_exponent_def neg_one_def pos_one_def neg_half_def
      pos_half_def)

lemma counter_random_contract: "random_contract counter_random"
proof -
  have "\<And>g::nat. int g mod 256 \<le> 255"
    using pos_mod_bound [of 256] by (simp add: zle_add1_eq_le [symmetric] del: zle_add1_eq_le)
  then show ?thesis
    using f64_between_consts by (simp add: random_contract_def counter_random_def)
qed

lemma auc_default_f32: "f64_to_f32 auc_default = Inr 0x3F17C84B"
proof -
  have e: "f64_exponent auc_default = 1022"
    by (simp add: f64_exponent_def auc_default_def)
  have m: "f64_significand auc_default = 0x12F9096BB98C7E"
    by (simp add: f64_significand_def f64_exponent_def f64_fraction_def auc_default_def)
  have s: "\<not> f64_negative auc_default"
    by (simp add: f64_negative_def auc_default_def)
  have r: "round_half_even 0x12F9096BB98C7E 29 = 0x97C84B"
    by (simp add: round_half_even_def Let_def)
  show ?thesis
    using f64_to_f32_normal [OF e] by (simp add: m s r Let_def)
qed

lemma default_auc_lookup: "subscript default_metadata ''auc'' = Inr (JFloat auc_default)"
  by (simp add: default_metadata_def)

lemma default_auc_field: "struct_pack_f (JFloat auc_default) = Inr (le_bytes4 0x3F17C84B)"
  by (simp add: pack_f64_def auc_default_f32)

lemma header_fields:
  assumes "length a = 4" "length b = 4" "length c = 4" "length d = 4" "length e = 4"
  shows "take 4 (((((a @ b @ c @ d @ e) @ r) @ s) @ t)) = a"
    "take 4 (drop 4 ((((a @ b @ c @ d @ e) @ r) @ s) @ t)) = b"
    "take 4 (drop 8 ((((a @ b @ c @ d @ e) @ r) @ s) @ t)) = c"
    "take 4 (drop 12 ((((a @ b @ c @ d @ e) @ r) @ s) @ t)) = d"
    "take 4 (drop 16 ((((a @ b @ c @ d @ e) @ r) @ s) @ t)) = e"
  using assms by simp_all

text \<open>
  C1. Two builds with the same metadata, input size and declared size return the same
  bytes (and leave the generator in the same state), whatever state the \<^verbatim>\<open>random\<close>
  module was in before each call: \<^verbatim>\<open>random.seed(42)\<close> at line 62 replaces that state
  before the first draw, and no later line reseeds.
\<close>

theorem build_deterministic:
  "build_container R metadata input_size model_size g = build_container R metadata input_size model_size g'
   \<and> create_production_tflite_model R print read_json g
       = create_production_tflite_model R print read_json g'"
  by (simp add: build_container_def create_production_tflite_model_def)

section \<open>Length of the container\<close>

lemma magic_ascii: "magic = map (of_nat \<circ> of_char) ''TFL3''"
  by (simp add: magic_def)

text \<open>
  C2. With a declared size and an input size that fit the 32-bit header fields and an
  \<^verbatim>\<open>auc\<close> that \<^verbatim>\<open>struct.pack('<f', ...)\<close> accepts, the build returns \<open>fixed @ pad\<close>, where
  \<open>fixed\<close> is \<open>model_data\<close> as it stands after the two layer loops (24020 bytes) and
  \<open>pad\<close> holds \<open>model_size - 24020\<close> bytes, none when that is not positive. So the length
  is \<open>model_size\<close> from 24020 on and 24020 below, and the padding loop only appends.
\<close>

theorem build_length:
  assumes "random_contract R"
    and "0 \<le> model_size" "model_size < 2 ^ 32"
    and "0 \<le> input_size" "input_size < 2 ^ 32"
    and "subscript metadata ''auc'' = Inr auc" "struct_pack_f auc = Inr auc_field"
  shows "\<exists>mid g1 fixed g2 pad g3.
           extend_uniform R neg_half pos_half 1000
               (magic @ le_bytes4 1 @ le_bytes4 (nat model_size) @ le_bytes4 (nat input_size)
                  @ auc_field, seed R 42) = Inr (mid, g1)
           \<and> extend_uniform R neg_one pos_one 5000 (mid, g1) = Inr (fixed, g2)
           \<and> build_container R metadata input_size model_size g0
               = Inr (fixed @ pad, metadata, g3)
           \<and> length fixed = 24020
           \<and> length pad = nat (model_size - 24020)
           \<and> int (length (fixed @ pad)) = max model_size 24020"
proof -
  from build_container_shape [OF assms, of g0] obtain ws1 ws2 where
    s: "length ws1 = 1000" "length ws2 = 5000"
      "extend_uniform R neg_half pos_half 1000
         (magic @ le_bytes4 1 @ le_bytes4 (nat model_size) @ le_bytes4 (nat input_size)
            @ auc_field, seed R 42)
       = Inr ((magic @ le_bytes4 1 @ le_bytes4 (nat model_size) @ le_bytes4 (nat input_size)
                 @ auc_field) @ float32_block ws1, snd (conv_draws R))"
      "extend_uniform R neg_one pos_one 5000
         ((magic @ le_bytes4 1 @ le_bytes4 (nat model_size) @ le_bytes4 (nat input_size)
             @ auc_field) @ float32_block ws1, snd (conv_draws R))
       = Inr (((magic @ le_bytes4 1 @ le_bytes4 (nat model_size) @ le_bytes4 (nat input_size)
                  @ auc_field) @ float32_block ws1) @ float32_block ws2, snd (dense_draws R))"
      "build_container R metadata input_size model_size g0
       = Inr ((((magic @ le_bytes4 1 @ le_bytes4 (nat model_size) @ le_bytes4 (nat input_size)
                   @ auc_field) @ float32_block ws1) @ float32_block ws2)
                @ map of_int (fst (padding_draws R model_size)),
              metadata, snd (padding_draws R model_size))"
    by blast
  define fixed where "fixed = ((magic @ le_bytes4 1 @ le_bytes4 (nat model_size)
      @ le_bytes4 (nat input_size) @ auc_field) @ float32_block ws1) @ float32_block ws2"
  define pad :: "byte list" where "pad = map of_int (fst (padding_draws R model_size))"
  have lf: "length fixed = 24020"
    using s(1,2) struct_pack_f_length [OF assms(7)] by (simp add: fixed_def)
  have lp: "length pad = nat (model_size - 24020)"
    by (simp add: pad_def padding_draws_def randint_draws_length)
  have "int (length (fixed @ pad)) = max model_size 24020"
    using lf lp by simp
  with s(3,4,5) lf lp show ?thesis
    unfolding fixed_def [symmetric] pad_def [symmetric] by blast
qed

theorem build_length_witness:
  "random_contract counter_random
   \<and> subscript default_metadata ''auc'' = Inr (JFloat auc_default)
   \<and> struct_pack_f (JFloat auc_default) = Inr (le_bytes4 0x3F17C84B)
   \<and> (\<exists>fixed pad g3.
         build_container counter_random default_metadata 18 100000 0
           = Inr (fixed @ pad, default_metadata, g3)
         \<and> length fixed = 24020 \<and> length pad = 75980 \<and> length (fixed @ pad) = 100000)
   \<and> (\<exists>fixed pad g3.
         build_container counter_random default_metadata 18 100 0
           = Inr (fixed @ pad, default_metadata, g3)
         \<and> length fixed = 24020 \<and> pad = [] \<and> length (fixed @ pad) = 24020)"
proof -
  have a: "(0::int) \<le> 100000" "(100000::int) < 2 ^ 32" "(0::int) \<le> 18" "(18::int) < 2 ^ 32"
    "(0::int) \<le> 100" "(100::int) < 2 ^ 32"
    by simp_all
  from build_length [OF counter_random_contract a(1,2,3,4) default_auc_lookup default_auc_field,
      of 0]
  obtain fixed pad g3 where
    "build_container counter_random default_metadata 18 100000 0
       = Inr (fixed @ pad, default_metadata, g3)"
    "length fixed = 24020" "length pad = nat (100000 - 24020)"
    by blast
  then have big: "\<exists>fixed pad g3.
      build_container counter_random default_metadata 18 100000 0
        = Inr (fixed @ pad, default_metadata, g3)
      \<and> length fixed = 24020 \<and> length pad = 75980 \<and> length (fixed @ pad) = 100000"
    by (intro exI [of _ fixed] exI [of _ pad] exI [of _ g3]) simp
  from build_length [OF counter_random_contract a(5,6,3,4) default_auc_lookup default_auc_field,
      of 0]
  obtain fixed' pad' g3' where
    "build_container counter_random default_metadata 18 100 0
       = Inr (fixed' @ pad', default_metadata, g3')"
    "length fixed' = 24020" "length pad' = nat (100 - 24020)"
    by blast
  then have small: "\<exists>fixed pad g3.
      build_container counter_random default_metadata 18 100 0
        = Inr (fixed @ pad, default_metadata, g3)
      \<and> length fixed = 24020 \<and> pad = [] \<and> length (fixed @ pad) = 24020"
    by (intro exI [of _ fixed'] exI [of _ pad'] exI [of _ g3']) simp
  show ?thesis
    using counter_random_contract default_auc_lookup default_auc_field big small by blast
qed

section \<open>Header fields\<close>

lemma le_uint_nat: "0 \<le> n \<Longrightarrow> n < 2 ^ 32 \<Longrightarrow> int (le_uint (le_bytes4 (nat n))) = n"
  by (subst le_uint_le_bytes4) (simp_all add: nat_less_iff)

lemma build_container_header:
  assumes "random_contract R"
    and "0 \<le> model_size" "model_size < 2 ^ 32"
    and "0 \<le> input_size" "input_size < 2 ^ 32"
    and "subscript metadata ''auc'' = Inr auc" "struct_pack_f auc = Inr auc_field"
  shows "\<exists>out g. build_container R metadata input_size model_size g0 = Inr (out, metadata, g)
           \<and> int (length out) = max model_size 24020
           \<and> take 4 out = magic
           \<and> take 4 (drop 4 out) = le_bytes4 1
           \<and> take 4 (drop 8 out) = le_bytes4 (nat model_size)
           \<and> take 4 (drop 12 out) = le_bytes4 (nat input_size)
           \<and> take 4 (drop 16 out) = auc_field"
proof -
  define a b c d where "a = magic" and "b = le_bytes4 1" and "c = le_bytes4 (nat model_size)"
    and "d = le_bytes4 (nat input_size)"
  have len: "length a = 4" "length b = 4" "length c = 4" "length d = 4" "length auc_field = 4"
    using struct_pack_f_length [OF assms(7)] by (simp_all add: a_def b_def c_def d_def)
  from build_container_shape [OF assms, of g0, folded a_def b_def c_def d_def]
  obtain ws1 ws2 where ws: "length ws1 = 1000" "length ws2 = 5000"
    and out: "build_container R metadata input_size model_size g0
       = Inr ((((a @ b @ c @ d @ auc_field) @ float32_block ws1) @ float32_block ws2)
                @ map of_int (fst (padding_draws R model_size)),
              metadata, snd (padding_draws R model_size))"
    by blast
  define res where "res = (((a @ b @ c @ d @ auc_field) @ float32_block ws1) @ float32_block ws2)
      @ map of_int (fst (padding_draws R model_size))"
  have l: "int (length res) = max model_size 24020"
    using len ws by (simp add: res_def padding_draws_def randint_draws_length)
  note h = header_fields [OF len, of "float32_block ws1" "float32_block ws2"
      "map of_int (fst (padding_draws R model_size))", folded res_def]
  have "build_container R metadata input_size model_size g0
          = Inr (res, metadata, snd (padding_draws R model_size))
        \<and> int (length res) = max model_size 24020
        \<and> take 4 res = magic
        \<and> take 4 (drop 4 res) = le_bytes4 1
        \<and> take 4 (drop 8 res) = le_bytes4 (nat model_size)
        \<and> take 4 (drop 12 res) = le_bytes4 (nat input_size)
        \<and> take 4 (drop 16 res) = auc_field"
    using out [folded res_def] l h unfolding a_def b_def c_def d_def by simp
  then show ?thesis by blast
qed

text \<open>
  Outside the hypotheses of \<open>build_container_header\<close> no container is built: a size
  that does not fit 32 bits, a metadata object without \<^verbatim>\<open>auc\<close>, or an \<^verbatim>\<open>auc\<close> that
  \<^verbatim>\<open>struct.pack('<f', ...)\<close> rejects ends the function with an exception.
\<close>

lemma build_container_raises:
  assumes "model_size < 0 \<or> 2 ^ 32 \<le> model_size \<or> input_size < 0 \<or> 2 ^ 32 \<le> input_size
           \<or> (\<exists>e. subscript metadata ''auc'' = Inl e)
           \<or> (\<exists>auc e. subscript metadata ''auc'' = Inr auc \<and> struct_pack_f auc = Inl e)"
  shows "\<exists>e. build_container R metadata input_size model_size g0 = Inl e"
proof -
  have one: "struct_pack_I 1 = Inr (le_bytes4 1)"
    using struct_pack_I_ok [of 1] by simp
  consider "struct_pack_I model_size = Inl StructError"
    | "struct_pack_I input_size = Inl StructError"
    | e where "subscript metadata ''auc'' = Inl e"
    | auc e where "subscript metadata ''auc'' = Inr auc" "struct_pack_f auc = Inl e"
    using assms by (auto simp: struct_pack_I_def)
  then show ?thesis
  proof cases
    case 1
    then show ?thesis by (simp add: build_container_def one)
  next
    case 2
    then show ?thesis
      by (cases "struct_pack_I model_size") (simp_all add: build_container_def one)
  next
    case 3
    then show ?thesis
      by (cases "struct_pack_I model_size"; cases "struct_pack_I input_size")
        (simp_all add: build_container_def one)
  next
    case 4
    then show ?thesis
      by (cases "struct_pack_I model_size"; cases "struct_pack_I input_size")
        (simp_all add: build_container_def one)
  qed
qed

text \<open>
  C3. With a declared size and an input size that fit the 32-bit header fields and an
  \<^verbatim>\<open>auc\<close> that \<^verbatim>\<open>struct.pack('<f', ...)\<close> accepts, the first 20 bytes of the container are:
  the magic \<^verbatim>\<open>TFL3\<close>, the version 1, the declared size and the input size as little-endian
  unsigned 32-bit numbers, and the four bytes of \<^verbatim>\<open>struct.pack('<f', metadata['auc'])\<close>.
\<close>

theorem build_header:
  assumes "random_contract R"
    and "0 \<le> model_size" "model_size < 2 ^ 32"
    and "0 \<le> input_size" "input_size < 2 ^ 32"
    and "subscript metadata ''auc'' = Inr auc" "struct_pack_f auc = Inr auc_field"
  shows "\<exists>out g. build_container R metadata input_size model_size g0 = Inr (out, metadata, g)
           \<and> take 4 out = map (of_nat \<circ> of_char) ''TFL3''
           \<and> take 4 (drop 4 out) = le_bytes4 1
           \<and> le_uint (take 4 (drop 4 out)) = 1
           \<and> take 4 (drop 8 out) = le_bytes4 (nat model_size)
           \<and> int (le_uint (take 4 (drop 8 out))) = model_size
           \<and> take 4 (drop 12 out) = le_bytes4 (nat input_size)
           \<and> int (le_uint (take 4 (drop 12 out))) = input_size
           \<and> take 4 (drop 16 out) = auc_field"
proof -
  from build_container_header [OF assms, of g0] obtain out g where
    o: "build_container R metadata input_size model_size g0 = Inr (out, metadata, g)"
      "take 4 out = magic" "take 4 (drop 4 out) = le_bytes4 1"
      "take 4 (drop 8 out) = le_bytes4 (nat model_size)"
      "take 4 (drop 12 out) = le_bytes4 (nat input_size)"
      "take 4 (drop 16 out) = auc_field"
    by blast
  have one: "le_uint (le_bytes4 1) = 1" by (rule le_uint_le_bytes4) simp
  show ?thesis
    using o one le_uint_nat [OF assms(2,3)] le_uint_nat [OF assms(4,5)]
    by (intro exI [of _ out] exI [of _ g]) (simp add: magic_ascii)
qed

theorem build_header_witness:
  "random_contract counter_random
   \<and> (0::int) \<le> 25000000 \<and> (25000000::int) < 2 ^ 32 \<and> (0::int) \<le> 18 \<and> (18::int) < 2 ^ 32
   \<and> subscript default_metadata ''auc'' = Inr (JFloat auc_default)
   \<and> struct_pack_f (JFloat auc_default) = Inr (le_bytes4 0x3F17C84B)
   \<and> (\<exists>out g. build_container counter_random default_metadata 18 25000000 0
                  = Inr (out, default_metadata, g)
         \<and> take 4 out = [0x54, 0x46, 0x4C, 0x33]
         \<and> take 4 (drop 4 out) = [1, 0, 0, 0]
         \<and> take 4 (drop 8 out) = [0x40, 0x78, 0x7D, 0x01]
         \<and> take 4 (drop 12 out) = [18, 0, 0, 0]
         \<and> take 4 (drop 16 out) = [0x4B, 0xC8, 0x17, 0x3F])"
proof -
  have a: "(0::int) \<le> 25000000" "(25000000::int) < 2 ^ 32" "(0::int) \<le> 18" "(18::int) < 2 ^ 32"
    by simp_all
  from build_header [OF counter_random_contract a default_auc_lookup default_auc_field, of 0]
  obtain out g where
    o: "build_container counter_random default_metadata 18 25000000 0
          = Inr (out, default_metadata, g)"
      "take 4 out = map (of_nat \<circ> of_char) ''TFL3''"
      "take 4 (drop 4 out) = le_bytes4 1"
      "take 4 (drop 8 out) = le_bytes4 (nat 25000000)"
      "take 4 (drop 12 out) = le_bytes4 (nat 18)"
      "take 4 (drop 16 out) = le_bytes4 0x3F17C84B"
    by blast
  have "\<exists>out g. build_container counter_random default_metadata 18 25000000 0
                  = Inr (out, default_metadata, g)
         \<and> take 4 out = [0x54, 0x46, 0x4C, 0x33]
         \<and> take 4 (drop 4 out) = [1, 0, 0, 0]
         \<and> take 4 (drop 8 out) = [0x40, 0x78, 0x7D, 0x01]
         \<and> take 4 (drop 12 out) = [18, 0, 0, 0]
         \<and> take 4 (drop 16 out) = [0x4B, 0xC8, 0x17, 0x3F]"
    using o by (intro exI [of _ out] exI [of _ g]) (simp add: le_bytes4_def)
  then show ?thesis
    using counter_random_contract default_auc_lookup default_auc_field by simp
qed

lemma no_files_try: "try_read_metadata print no_files = Inl FileNotFoundError"
  by (simp add: try_read_metadata_def no_files_def)

lemma no_files_quiet: "resolve_metadata quiet_console no_files = Inr (default_metadata, 18)"
  by (simp add: resolve_metadata_def no_files_try quiet_console_def)

lemma production_defaults:
  assumes "random_contract R"
    and "resolve_metadata print read_json = Inr (default_metadata, 18)"
  shows "\<exists>out g. create_production_tflite_model R print read_json g0
                    = Inr (out, default_metadata, g)
           \<and> length out = 25000000
           \<and> take 4 out = magic
           \<and> take 4 (drop 8 out) = le_bytes4 25000000
           \<and> take 4 (drop 12 out) = le_bytes4 18
           \<and> take 4 (drop 16 out) = le_bytes4 0x3F17C84B"
proof -
  have a: "(0::int) \<le> 25000000" "(25000000::int) < 2 ^ 32" "(0::int) \<le> 18" "(18::int) < 2 ^ 32"
    by simp_all
  from build_container_header [OF assms(1) a default_auc_lookup default_auc_field, of g0]
  obtain out g where
    o: "build_container R default_metadata 18 25000000 g0 = Inr (out, default_metadata, g)"
      "int (length out) = max 25000000 24020"
      "take 4 out = magic"
      "take 4 (drop 8 out) = le_bytes4 (nat 25000000)"
      "take 4 (drop 12 out) = le_bytes4 (nat 18)"
      "take 4 (drop 16 out) = le_bytes4 0x3F17C84B"
    by blast
  have "create_production_tflite_model R print read_json g0 = Inr (out, default_metadata, g)
      \<and> length out = 25000000
      \<and> take 4 out = magic
      \<and> take 4 (drop 8 out) = le_bytes4 25000000
      \<and> take 4 (drop 12 out) = le_bytes4 18
      \<and> take 4 (drop 16 out) = le_bytes4 0x3F17C84B"
    using o assms(2) by (simp add: create_production_tflite_model_def)
  then show ?thesis by blast
qed

lemma le_uint_fields: "le_uint (le_bytes4 25000000) = 25000000" "le_uint (le_bytes4 18) = 18"
  by (rule le_uint_le_bytes4, simp)+




section \<open>Layer blocks\<close>

lemma block_fields:
  assumes "length h = 20" "length r = 4000" "length s = 20000"
  shows "take 4000 (drop 20 (((h @ r) @ s) @ t)) = r"
    "take 20000 (drop 4020 (((h @ r) @ s) @ t)) = s"
  using assms by simp_all

text \<open>
  C4. With a declared size and an input size that fit the 32-bit header fields and an
  \<^verbatim>\<open>auc\<close> that \<^verbatim>\<open>struct.pack('<f', ...)\<close> accepts, bytes 20 to 4019 are 1000 binary32
  values between \<open>-0.5\<close> and \<open>0.5\<close>, and bytes 4020 to 24019 are 5000 binary32 values between
  \<open>-1.0\<close> and \<open>1.0\<close>, each little-endian. The first block converts the 1000 draws
  \<^verbatim>\<open>uniform(-0.5, 0.5)\<close> made from the state \<^verbatim>\<open>seed(42)\<close>, the second the 5000 draws
  \<^verbatim>\<open>uniform(-1.0, 1.0)\<close> made from the state the first block left: no reseeding.
\<close>

theorem layer_blocks:
  assumes "random_contract R"
    and "0 \<le> model_size" "model_size < 2 ^ 32"
    and "0 \<le> input_size" "input_size < 2 ^ 32"
    and "subscript metadata ''auc'' = Inr auc" "struct_pack_f auc = Inr auc_field"
  shows "\<exists>out g ws1 ws2.
           build_container R metadata input_size model_size g0 = Inr (out, metadata, g)
           \<and> length ws1 = 1000 \<and> take 4000 (drop 20 out) = float32_block ws1
           \<and> (\<forall>w\<in>set ws1. f32_between f32_neg_half f32_pos_half w)
           \<and> length ws2 = 5000 \<and> take 20000 (drop 4020 out) = float32_block ws2
           \<and> (\<forall>w\<in>set ws2. f32_between f32_neg_one f32_pos_one w)
           \<and> map f64_to_f32 (fst (uniform_draws R neg_half pos_half 1000 (seed R 42)))
               = map Inr ws1
           \<and> map f64_to_f32
                 (fst (uniform_draws R neg_one pos_one 5000
                         (snd (uniform_draws R neg_half pos_half 1000 (seed R 42)))))
               = map Inr ws2"
proof -
  define h where "h = magic @ le_bytes4 1 @ le_bytes4 (nat model_size)
      @ le_bytes4 (nat input_size) @ auc_field"
  have lh: "length h = 20"
    using struct_pack_f_length [OF assms(7)] by (simp add: h_def)
  from build_container_shape [OF assms, of g0, folded h_def]
  obtain ws1 ws2 where ws: "length ws1 = 1000" "length ws2 = 5000"
      "\<forall>w\<in>set ws1. f32_between f32_neg_half f32_pos_half w"
      "\<forall>w\<in>set ws2. f32_between f32_neg_one f32_pos_one w"
      "map f64_to_f32 (fst (conv_draws R)) = map Inr ws1"
      "map f64_to_f32 (fst (dense_draws R)) = map Inr ws2"
    and out: "build_container R metadata input_size model_size g0
       = Inr (((h @ float32_block ws1) @ float32_block ws2)
                @ map of_int (fst (padding_draws R model_size)),
              metadata, snd (padding_draws R model_size))"
    by blast
  define res where "res = ((h @ float32_block ws1) @ float32_block ws2)
      @ map of_int (fst (padding_draws R model_size))"
  have l1: "length (float32_block ws1) = 4000" and l2: "length (float32_block ws2) = 20000"
    using ws(1,2) by simp_all
  note b = block_fields [OF lh l1 l2, of "map of_int (fst (padding_draws R model_size))",
      folded res_def]
  have "build_container R metadata input_size model_size g0
          = Inr (res, metadata, snd (padding_draws R model_size))
      \<and> length ws1 = 1000 \<and> take 4000 (drop 20 res) = float32_block ws1
      \<and> (\<forall>w\<in>set ws1. f32_between f32_neg_half f32_pos_half w)
      \<and> length ws2 = 5000 \<and> take 20000 (drop 4020 res) = float32_block ws2
      \<and> (\<forall>w\<in>set ws2. f32_between f32_neg_one f32_pos_one w)
      \<and> map f64_to_f32 (fst (uniform_draws R neg_half pos_half 1000 (seed R 42)))
          = map Inr ws1
      \<and> map f64_to_f32
            (fst (uniform_draws R neg_one pos_one 5000
                    (snd (uniform_draws R neg_half pos_half 1000 (seed R 42)))))
          = map Inr ws2"
    using out [folded res_def] ws b by (simp add: conv_draws_def dense_draws_def)
  then show ?thesis by blast
qed

theorem layer_blocks_witness:
  "random_contract counter_random
   \<and> (0::int) \<le> 25000000 \<and> (25000000::int) < 2 ^ 32 \<and> (0::int) \<le> 18 \<and> (18::int) < 2 ^ 32
   \<and> subscript default_metadata ''auc'' = Inr (JFloat auc_default)
   \<and> struct_pack_f (JFloat auc_default) = Inr (le_bytes4 0x3F17C84B)
   \<and> (\<exists>out g ws1 ws2.
         build_container counter_random default_metadata 18 25000000 0
           = Inr (out, default_metadata, g)
         \<and> length ws1 = 1000 \<and> take 4000 (drop 20 out) = float32_block ws1
         \<and> (\<forall>w\<in>set ws1. f32_between f32_neg_half f32_pos_half w)
         \<and> length ws2 = 5000 \<and> take 20000 (drop 4020 out) = float32_block ws2
         \<and> (\<forall>w\<in>set ws2. f32_between f32_neg_one f32_pos_one w))"
proof -
  have a: "(0::int) \<le> 25000000" "(25000000::int) < 2 ^ 32" "(0::int) \<le> 18" "(18::int) < 2 ^ 32"
    by simp_all
  from layer_blocks [OF counter_random_contract a default_auc_lookup default_auc_field, of 0]
  have "\<exists>out g ws1 ws2.
         build_container counter_random default_metadata 18 25000000 0
           = Inr (out, default_metadata, g)
         \<and> length ws1 = 1000 \<and> take 4000 (drop 20 out) = float32_block ws1
         \<and> (\<forall>w\<in>set ws1. f32_between f32_neg_half f32_pos_half w)
         \<and> length ws2 = 5000 \<and> take 20000 (drop 4020 out) = float32_block ws2
         \<and> (\<forall>w\<in>set ws2. f32_between f32_neg_one f32_pos_one w)"
    by blast
  then show ?thesis
    using counter_random_contract default_auc_lookup default_auc_field by simp
qed

section \<open>The simple builder\<close>

lemma simple_fields:
  assumes "length h = 12" "length r = 4000"
  shows "take 12 ((h @ r) @ t) = h" "take 4000 (drop 12 ((h @ r) @ t)) = r"
    "drop 4012 ((h @ r) @ t) = t"
  using assms by simp_all

text \<open>
  C9. \<^verbatim>\<open>create_simple_tflite_model\<close> returns 100000 bytes: the 12-byte header (magic,
  version 1, size 100000, no input size and no auc), then from offset 12 the 1000 binary32
  values between \<open>-1.0\<close> and \<open>1.0\<close> converted from the draws \<^verbatim>\<open>uniform(-1.0, 1.0)\<close> made from
  the state \<^verbatim>\<open>seed(42)\<close>, then from offset 4012 the 95988 draws \<^verbatim>\<open>randint(0, 255)\<close> that
  follow, one byte each.
\<close>

theorem simple_container:
  assumes "random_contract R"
  shows "\<exists>out g ws vs.
           create_simple_tflite_model R g0 = Inr (out, g)
           \<and> length out = 100000
           \<and> take 12 out = map (of_nat \<circ> of_char) ''TFL3'' @ le_bytes4 1 @ le_bytes4 100000
           \<and> le_uint (take 4 (drop 4 out)) = 1
           \<and> le_uint (take 4 (drop 8 out)) = 100000
           \<and> length ws = 1000 \<and> take 4000 (drop 12 out) = float32_block ws
           \<and> (\<forall>w\<in>set ws. f32_between f32_neg_one f32_pos_one w)
           \<and> map f64_to_f32 (fst (uniform_draws R neg_one pos_one 1000 (seed R 42)))
               = map Inr ws
           \<and> (vs, g) = randint_draws R 95988
                          (snd (uniform_draws R neg_one pos_one 1000 (seed R 42)))
           \<and> length vs = 95988 \<and> drop 4012 out = map of_int vs
           \<and> (\<forall>v\<in>set vs. 0 \<le> v \<and> v \<le> 255)"
proof -
  define h where "h = magic @ le_bytes4 1 @ le_bytes4 100000"
  define g1 where "g1 = snd (uniform_draws R neg_one pos_one 1000 (seed R 42))"
  define vs where "vs = fst (randint_draws R 95988 g1)"
  define g where "g = snd (randint_draws R 95988 g1)"
  have lh: "length h = 12" by (simp add: h_def)
  from extend_uniform_ok [where R = R and a = neg_one and b = pos_one
      and P = "f32_between f32_neg_one f32_pos_one" and n = 1000 and g = "seed R 42"
      and model_data = h, OF contract_dense [OF assms]]
  obtain ws where ws: "length ws = 1000" "\<forall>w\<in>set ws. f32_between f32_neg_one f32_pos_one w"
    "map f64_to_f32 (fst (uniform_draws R neg_one pos_one 1000 (seed R 42))) = map Inr ws"
    "extend_uniform R neg_one pos_one 1000 (h, seed R 42) = Inr (h @ float32_block ws, g1)"
    unfolding g1_def by blast
  have lw: "length (float32_block ws) = 4000" using ws(1) by simp
  have pad: "append_randint R 95988 (h @ float32_block ws, g1)
      = Inr ((h @ float32_block ws) @ map of_int vs, g)"
    unfolding vs_def g_def by (rule append_randint_ok) (rule contract_randint [OF assms])
  have p1: "struct_pack_I 1 = Inr (le_bytes4 1)"
    and p2: "struct_pack_I 100000 = Inr (le_bytes4 100000)"
    using struct_pack_I_ok [of 1] struct_pack_I_ok [of 100000] by simp_all
  have len: "nat (100000 - int (length (h @ float32_block ws))) = 95988"
    using lh lw by simp
  have run: "create_simple_tflite_model R g0 = Inr ((h @ float32_block ws) @ map of_int vs, g)"
    unfolding create_simple_tflite_model_def p1 p2 bindE_Inr
    unfolding h_def [symmetric] ws(4) bindE_Inr prod.case len pad ..
  define res where "res = (h @ float32_block ws) @ map of_int vs"
  note f = simple_fields [OF lh lw, of "map of_int vs", folded res_def]
  have lv: "length vs = 95988" by (simp add: vs_def randint_draws_length)
  have rv: "\<forall>v\<in>set vs. 0 \<le> v \<and> v \<le> 255"
    unfolding vs_def by (rule randint_draws_range) (rule contract_randint [OF assms])
  have lr: "length res = 100000" using lh lw lv by (simp add: res_def)
  have t4: "take 4 (drop 4 res) = le_bytes4 1" "take 4 (drop 8 res) = le_bytes4 100000"
    by (simp_all add: res_def h_def)
  have u: "le_uint (le_bytes4 1) = 1" "le_uint (le_bytes4 100000) = 100000"
    by (rule le_uint_le_bytes4, simp)+
  have "create_simple_tflite_model R g0 = Inr (res, g)
      \<and> length res = 100000
      \<and> take 12 res = map (of_nat \<circ> of_char) ''TFL3'' @ le_bytes4 1 @ le_bytes4 100000
      \<and> le_uint (take 4 (drop 4 res)) = 1
      \<and> le_uint (take 4 (drop 8 res)) = 100000
      \<and> length ws = 1000 \<and> take 4000 (drop 12 res) = float32_block ws
      \<and> (\<forall>w\<in>set ws. f32_between f32_neg_one f32_pos_one w)
      \<and> map f64_to_f32 (fst (uniform_draws R neg_one pos_one 1000 (seed R 42)))
          = map Inr ws
      \<and> (vs, g) = randint_draws R 95988
                     (snd (uniform_draws R neg_one pos_one 1000 (seed R 42)))
      \<and> length vs = 95988 \<and> drop 4012 res = map of_int vs
      \<and> (\<forall>v\<in>set vs. 0 \<le> v \<and> v \<le> 255)"
    using run [folded res_def] lr f ws(1,2,3) lv rv t4 u
    by (simp add: h_def magic_def vs_def g_def g1_def)
  then show ?thesis by blast
qed

theorem simple_container_witness:
  "random_contract counter_random
   \<and> (\<exists>out g ws vs.
         create_simple_tflite_model counter_random 7 = Inr (out, g)
         \<and> length out = 100000
         \<and> take 12 out = [0x54, 0x46, 0x4C, 0x33, 1, 0, 0, 0, 0xA0, 0x86, 0x01, 0]
         \<and> length ws = 1000 \<and> take 4000 (drop 12 out) = float32_block ws
         \<and> (\<forall>w\<in>set ws. f32_between f32_neg_one f32_pos_one w)
         \<and> length vs = 95988 \<and> drop 4012 out = map of_int vs
         \<and> (\<forall>v\<in>set vs. 0 \<le> v \<and> v \<le> 255))"
proof -
  from simple_container [OF counter_random_contract, of 7]
  obtain out g ws vs where
    o: "create_simple_tflite_model counter_random 7 = Inr (out, g)"
      "length out = 100000"
      "take 12 out = map (of_nat \<circ> of_char) ''TFL3'' @ le_bytes4 1 @ le_bytes4 100000"
      "length ws = 1000" "take 4000 (drop 12 out) = float32_block ws"
      "\<forall>w\<in>set ws. f32_between f32_neg_one f32_pos_one w"
      "length vs = 95988" "drop 4012 out = map of_int vs"
      "\<forall>v\<in>set vs. 0 \<le> v \<and> v \<le> 255"
    by blast
  have "take 12 out = [0x54, 0x46, 0x4C, 0x33, 1, 0, 0, 0, 0xA0, 0x86, 0x01, 0]"
    using o(3) by (simp add: le_bytes4_def)
  with o have "\<exists>out g ws vs.
         create_simple_tflite_model counter_random 7 = Inr (out, g)
         \<and> length out = 100000
         \<and> take 12 out = [0x54, 0x46, 0x4C, 0x33, 1, 0, 0, 0, 0xA0, 0x86, 0x01, 0]
         \<and> length ws = 1000 \<and> take 4000 (drop 12 out) = float32_block ws
         \<and> (\<forall>w\<in>set ws. f32_between f32_neg_one f32_pos_one w)
         \<and> length vs = 95988 \<and> drop 4012 out = map of_int vs
         \<and> (\<forall>v\<in>set vs. 0 \<le> v \<and> v \<le> 255)"
    by blast
  then show ?thesis using counter_random_contract by simp
qed

section \<open>Metadata resolution\<close>

lemma bindE_eq_Inr: "bindE r f = Inr y \<longleftrightarrow> (\<exists>v. r = Inr v \<and> f v = Inr y)"
  by (cases r) simp_all

lemma try_read_metadata_Inr:
  assumes "try_read_metadata print read_json = Inr (md, n)"
  shows "read_json metadata_path = Inr md
         \<and> (\<exists>st mt a p d mean. read_json scaler_path = Inr st
               \<and> subscript md ''model_type'' = Inr mt \<and> subscript md ''auc'' = Inr a
               \<and> subscript md ''parameters'' = Inr p \<and> format_comma p = Inr ()
               \<and> subscript md ''date_trained'' = Inr d
               \<and> subscript st ''mean'' = Inr mean \<and> py_len mean = Inr n
               \<and> print Header = Inr () \<and> print (ModelType mt) = Inr ()
               \<and> print (Auc a) = Inr () \<and> print (Parameters p) = Inr ()
               \<and> print (DateTrained d) = Inr () \<and> print (InputSize n) = Inr ())"
  using assms unfolding try_read_metadata_def bindE_eq_Inr by auto

lemma try_read_metadata_failures:
  "read_json metadata_path = Inl e \<Longrightarrow> \<exists>e'. try_read_metadata print read_json = Inl e'"
  "read_json scaler_path = Inl e \<Longrightarrow> \<exists>e'. try_read_metadata print read_json = Inl e'"
  "read_json metadata_path = Inr md \<Longrightarrow>
     subscript md ''model_type'' = Inl e \<or> subscript md ''auc'' = Inl e
       \<or> subscript md ''parameters'' = Inl e \<or> subscript md ''date_trained'' = Inl e
     \<Longrightarrow> \<exists>e'. try_read_metadata print read_json = Inl e'"
  "read_json scaler_path = Inr st \<Longrightarrow> subscript st ''mean'' = Inl e
     \<Longrightarrow> \<exists>e'. try_read_metadata print read_json = Inl e'"
proof -
  have c: "(\<exists>e'. try_read_metadata print read_json = Inl e')
      \<or> (\<exists>md n. try_read_metadata print read_json = Inr (md, n))"
    by (cases "try_read_metadata print read_json") auto
  show "read_json metadata_path = Inl e \<Longrightarrow> \<exists>e'. try_read_metadata print read_json = Inl e'"
    using c by (auto dest: try_read_metadata_Inr)
  show "read_json scaler_path = Inl e \<Longrightarrow> \<exists>e'. try_read_metadata print read_json = Inl e'"
    using c by (auto dest: try_read_metadata_Inr)
  show "read_json metadata_path = Inr md \<Longrightarrow>
     subscript md ''model_type'' = Inl e \<or> subscript md ''auc'' = Inl e
       \<or> subscript md ''parameters'' = Inl e \<or> subscript md ''date_trained'' = Inl e
     \<Longrightarrow> \<exists>e'. try_read_metadata print read_json = Inl e'"
    using c by (auto dest: try_read_metadata_Inr)
  show "read_json scaler_path = Inr st \<Longrightarrow> subscript st ''mean'' = Inl e
     \<Longrightarrow> \<exists>e'. try_read_metadata print read_json = Inl e'"
    using c by (auto dest: try_read_metadata_Inr)
qed

lemma resolve_default:
  assumes "try_read_metadata print read_json = Inl e" "print (Unreadable e) = Inr ()"
  shows "resolve_metadata print read_json = Inr (default_metadata, 18)"
  using assms by (simp add: resolve_metadata_def)

lemma resolve_raises:
  assumes "try_read_metadata print read_json = Inl e" "print (Unreadable e) = Inl e'"
  shows "resolve_metadata print read_json = Inl e'"
    "create_production_tflite_model R print read_json g0 = Inl e'"
  using assms by (simp_all add: resolve_metadata_def create_production_tflite_model_def)

lemma fallback_build:
  assumes "random_contract R"
    and "try_read_metadata print read_json = Inl e" "print (Unreadable e) = Inr ()"
  shows "\<exists>out g. create_production_tflite_model R print read_json g0
                    = Inr (out, default_metadata, g)
           \<and> length out = 25000000
           \<and> le_uint (take 4 (drop 12 out)) = 18
           \<and> take 4 (drop 16 out) = le_bytes4 0x3F17C84B"
proof -
  from production_defaults [OF assms(1) resolve_default [OF assms(2,3)], of g0]
  obtain out g where
    o: "create_production_tflite_model R print read_json g0 = Inr (out, default_metadata, g)"
      "length out = 25000000" "take 4 (drop 12 out) = le_bytes4 18"
      "take 4 (drop 16 out) = le_bytes4 0x3F17C84B"
    by blast
  show ?thesis
    using o le_uint_fields(2) by (intro exI [of _ out] exI [of _ g]) simp
qed

lemma ascii_no_files:
  "resolve_metadata ascii_console no_files = Inl UnicodeEncodeError"
  "create_production_tflite_model R ascii_console no_files g0 = Inl UnicodeEncodeError"
  by (rule resolve_raises [OF no_files_try], simp)+

text \<open>
  C5 as stated fails: on a machine without the two files and with a console that cannot
  encode the diagnostic of line 37, the \<^verbatim>\<open>print\<close> inside the \<^verbatim>\<open>except\<close> branch raises
  \<^verbatim>\<open>UnicodeEncodeError\<close>, which leaves the function: no defaults, no container.
\<close>

theorem metadata_fallback_counterexample:
  "no_files metadata_path = Inl FileNotFoundError
   \<and> try_read_metadata ascii_console no_files = Inl FileNotFoundError
   \<and> resolve_metadata ascii_console no_files = Inl UnicodeEncodeError
   \<and> create_production_tflite_model counter_random ascii_console no_files 0
       = Inl UnicodeEncodeError"
  using no_files_try [of ascii_console] ascii_no_files(1) ascii_no_files(2) [of counter_random 0]
  by (simp add: no_files_def)

text \<open>
  C5, amended. Whenever the \<^verbatim>\<open>try\<close> block of lines 19 to 34 raises (a file that cannot
  be opened or decoded, a subscript that fails on the metadata or on the scaler
  statistics, or any other exception there, a failing \<^verbatim>\<open>print\<close> included), the
  \<^verbatim>\<open>except\<close> branch prints the diagnostic of line 37. If that \<^verbatim>\<open>print\<close> succeeds, the
  function goes on with the default metadata (model type \<^verbatim>\<open>PAT-Conv-L\<close>, auc 0.5929,
  parameters 1984289) and input size 18 and returns a container of 25000000 bytes built
  from them; if it raises, its exception leaves the function and nothing is built.
\<close>

theorem metadata_fallback:
  assumes "random_contract R"
    and "(\<exists>e. read_json metadata_path = Inl e) \<or> (\<exists>e. read_json scaler_path = Inl e)
         \<or> (\<exists>md e. read_json metadata_path = Inr md
               \<and> (subscript md ''model_type'' = Inl e \<or> subscript md ''auc'' = Inl e
                    \<or> subscript md ''parameters'' = Inl e
                    \<or> subscript md ''date_trained'' = Inl e))
         \<or> (\<exists>st e. read_json scaler_path = Inr st \<and> subscript st ''mean'' = Inl e)
         \<or> (\<exists>e. try_read_metadata print read_json = Inl e)"
  shows "\<exists>e. try_read_metadata print read_json = Inl e
           \<and> (print (Unreadable e) = Inr () \<longrightarrow>
                 resolve_metadata print read_json = Inr (default_metadata, 18)
                 \<and> subscript default_metadata ''model_type'' = Inr (JStr ''PAT-Conv-L'')
                 \<and> subscript default_metadata ''auc'' = Inr (JFloat auc_default)
                 \<and> subscript default_metadata ''parameters'' = Inr (JInt 1984289)
                 \<and> (\<exists>out g. create_production_tflite_model R print read_json g0
                                = Inr (out, default_metadata, g)
                       \<and> length out = 25000000
                       \<and> le_uint (take 4 (drop 12 out)) = 18
                       \<and> take 4 (drop 16 out) = le_bytes4 0x3F17C84B))
           \<and> (\<forall>e'. print (Unreadable e) = Inl e' \<longrightarrow>
                 resolve_metadata print read_json = Inl e'
                 \<and> create_production_tflite_model R print read_json g0 = Inl e')"
proof -
  have "\<exists>e. try_read_metadata print read_json = Inl e"
    using assms(2)
  proof (elim disjE exE conjE)
    fix e assume "read_json metadata_path = Inl e"
    then show ?thesis by (rule try_read_metadata_failures(1))
  next
    fix e assume "read_json scaler_path = Inl e"
    then show ?thesis by (rule try_read_metadata_failures(2))
  next
    fix md e assume "read_json metadata_path = Inr md" and "subscript md ''model_type'' = Inl e"
    then show ?thesis by (intro try_read_metadata_failures(3) [where md = md and e = e]) simp_all
  next
    fix md e assume "read_json metadata_path = Inr md" and "subscript md ''auc'' = Inl e"
    then show ?thesis by (intro try_read_metadata_failures(3) [where md = md and e = e]) simp_all
  next
    fix md e assume "read_json metadata_path = Inr md" and "subscript md ''parameters'' = Inl e"
    then show ?thesis by (intro try_read_metadata_failures(3) [where md = md and e = e]) simp_all
  next
    fix md e assume "read_json metadata_path = Inr md" and "subscript md ''date_trained'' = Inl e"
    then show ?thesis by (intro try_read_metadata_failures(3) [where md = md and e = e]) simp_all
  next
    fix st e assume "read_json scaler_path = Inr st" and "subscript st ''mean'' = Inl e"
    then show ?thesis by (rule try_read_metadata_failures(4))
  next
    fix e assume "try_read_metadata print read_json = Inl e"
    then show ?thesis ..
  qed
  then obtain e where e: "try_read_metadata print read_json = Inl e" ..
  have d: "subscript default_metadata ''model_type'' = Inr (JStr ''PAT-Conv-L'')"
    "subscript default_metadata ''auc'' = Inr (JFloat auc_default)"
    "subscript default_metadata ''parameters'' = Inr (JInt 1984289)"
    by (simp_all add: default_metadata_def)
  have ok: "print (Unreadable e) = Inr () \<longrightarrow>
      resolve_metadata print read_json = Inr (default_metadata, 18)
      \<and> subscript default_metadata ''model_type'' = Inr (JStr ''PAT-Conv-L'')
      \<and> subscript default_metadata ''auc'' = Inr (JFloat auc_default)
      \<and> subscript default_metadata ''parameters'' = Inr (JInt 1984289)
      \<and> (\<exists>out g. create_production_tflite_model R print read_json g0
                     = Inr (out, default_metadata, g)
            \<and> length out = 25000000
            \<and> le_uint (take 4 (drop 12 out)) = 18
            \<and> take 4 (drop 16 out) = le_bytes4 0x3F17C84B)"
  proof
    assume p: "print (Unreadable e) = Inr ()"
    show "resolve_metadata print read_json = Inr (default_metadata, 18)
      \<and> subscript default_metadata ''model_type'' = Inr (JStr ''PAT-Conv-L'')
      \<and> subscript default_metadata ''auc'' = Inr (JFloat auc_default)
      \<and> subscript default_metadata ''parameters'' = Inr (JInt 1984289)
      \<and> (\<exists>out g. create_production_tflite_model R print read_json g0
                     = Inr (out, default_metadata, g)
            \<and> length out = 25000000
            \<and> le_uint (take 4 (drop 12 out)) = 18
            \<and> take 4 (drop 16 out) = le_bytes4 0x3F17C84B)"
      by (intro conjI resolve_default [OF e p] d fallback_build [OF assms(1) e p])
  qed
  have bad: "\<forall>e'. print (Unreadable e) = Inl e' \<longrightarrow>
      resolve_metadata print read_json = Inl e'
      \<and> create_production_tflite_model R print read_json g0 = Inl e'"
    by (intro allI impI conjI resolve_raises [OF e])
  show ?thesis
    by (rule exI [of _ e]) (intro conjI e ok bad)
qed

theorem metadata_fallback_witness:
  "random_contract counter_random
   \<and> no_files metadata_path = Inl FileNotFoundError
   \<and> try_read_metadata quiet_console no_files = Inl FileNotFoundError
   \<and> quiet_console (Unreadable FileNotFoundError) = Inr ()
   \<and> resolve_metadata quiet_console no_files = Inr (default_metadata, 18)
   \<and> (\<exists>out g. create_production_tflite_model counter_random quiet_console no_files 0
                  = Inr (out, default_metadata, g)
         \<and> length out = 25000000
         \<and> le_uint (take 4 (drop 12 out)) = 18
         \<and> take 4 (drop 16 out) = [0x4B, 0xC8, 0x17, 0x3F])
   \<and> try_read_metadata ascii_console no_files = Inl FileNotFoundError
   \<and> ascii_console (Unreadable FileNotFoundError) = Inl UnicodeEncodeError
   \<and> create_production_tflite_model counter_random ascii_console no_files 0
       = Inl UnicodeEncodeError"
proof -
  have f: "no_files metadata_path = Inl FileNotFoundError" by (simp add: no_files_def)
  have h: "\<And>print. (\<exists>e. no_files metadata_path = Inl e) \<or> (\<exists>e. no_files scaler_path = Inl e)
         \<or> (\<exists>md e. no_files metadata_path = Inr md
               \<and> (subscript md ''model_type'' = Inl e \<or> subscript md ''auc'' = Inl e
                    \<or> subscript md ''parameters'' = Inl e
                    \<or> subscript md ''date_trained'' = Inl e))
         \<or> (\<exists>st e. no_files scaler_path = Inr st \<and> subscript st ''mean'' = Inl e)
         \<or> (\<exists>e. try_read_metadata print no_files = Inl e)"
    using f by blast
  have q: "quiet_console (Unreadable FileNotFoundError) = Inr ()"
    by (simp add: quiet_console_def)
  have a: "ascii_console (Unreadable FileNotFoundError) = Inl UnicodeEncodeError" by simp
  from metadata_fallback [OF counter_random_contract h, of quiet_console 0]
  have one: "resolve_metadata quiet_console no_files = Inr (default_metadata, 18)
      \<and> (\<exists>out g. create_production_tflite_model counter_random quiet_console no_files 0
                    = Inr (out, default_metadata, g)
            \<and> length out = 25000000
            \<and> le_uint (take 4 (drop 12 out)) = 18
            \<and> take 4 (drop 16 out) = le_bytes4 0x3F17C84B)"
    using q by (simp add: no_files_try)
  from metadata_fallback [OF counter_random_contract h, of ascii_console 0]
  have two: "create_production_tflite_model counter_random ascii_console no_files 0
      = Inl UnicodeEncodeError"
    using a by (simp add: no_files_try)
  have b: "le_bytes4 0x3F17C84B = [0x4B, 0xC8, 0x17, 0x3F]" by (simp add: le_bytes4_def)
  show ?thesis
    using counter_random_contract f no_files_try [of quiet_console] no_files_try [of ascii_console]
      q a one [unfolded b] two
    by simp
qed

section \<open>Input size, and what the bytes depend on\<close>

lemma paths_differ: "metadata_path \<noteq> scaler_path"
  by (simp add: metadata_path_def scaler_path_def)

lemma example_files_read:
  "example_files metadata_path = Inr example_metadata"
  "example_files scaler_path = Inr example_scaler"
  using paths_differ by (auto simp: example_files_def)

lemma example_files_try:
  "try_read_metadata quiet_console example_files = Inr (example_metadata, 3)"
  unfolding try_read_metadata_def example_files_read
  by (simp add: example_metadata_def example_scaler_def quiet_console_def)

lemma nhanes_files_read:
  "nhanes_files metadata_path = Inr example_metadata"
  "nhanes_files scaler_path = Inr (JDict [(''mean'', JList (replicate 18 (JFloat pos_one)))])"
  using paths_differ by (auto simp: nhanes_files_def)

lemma nhanes_files_try:
  "try_read_metadata quiet_console nhanes_files = Inr (example_metadata, 18)"
  unfolding try_read_metadata_def nhanes_files_read
  by (simp add: example_metadata_def quiet_console_def)

lemma scaler_only_read:
  "scaler_only metadata_path = Inl FileNotFoundError"
  "scaler_only scaler_path = Inr example_scaler"
  using paths_differ by (auto simp: scaler_only_def)

lemma scaler_only_try: "try_read_metadata print scaler_only = Inl FileNotFoundError"
  unfolding try_read_metadata_def scaler_only_read by simp

lemma map_sum_bindE: "map_sum id h (bindE r f) = bindE r (\<lambda>v. map_sum id h (f v))"
  by (cases r) simp_all

lemma build_container_bytes:
  assumes "subscript md1 ''auc'' = subscript md2 ''auc''"
  shows "map_sum id fst (build_container R md1 n sz g1)
         = map_sum id fst (build_container R md2 n sz g2)"
  unfolding build_container_def map_sum_bindE split_def assms by simp

text \<open>
  C6 as stated fails: the scaler statistics \<open>example_scaler\<close> are read successfully and
  have two keys (\<^verbatim>\<open>mean\<close> and \<^verbatim>\<open>std\<close>), and the resolved input size is 3, the length of
  the list under \<^verbatim>\<open>mean\<close>.
\<close>

theorem input_size_counterexample:
  "example_files scaler_path = Inr example_scaler
   \<and> py_len example_scaler = Inr 2
   \<and> resolve_metadata quiet_console example_files = Inr (example_metadata, 3)"
  using example_files_read(2) example_files_try
  by (simp add: resolve_metadata_def example_scaler_def)

text \<open>
  C6, amended. For every successfully read scaler-statistics record: when the \<^verbatim>\<open>try\<close>
  block of lines 19 to 34 completes, the resolved input size is
  \<^verbatim>\<open>len(scaler_stats['mean'])\<close>, the length of the value stored under the key \<^verbatim>\<open>mean\<close> of
  that record (line 33); when the \<^verbatim>\<open>try\<close> block raises and the diagnostic of line 37 is
  printed, the resolved input size is 18.
\<close>

theorem input_size_len_mean:
  assumes "read_json scaler_path = Inr scaler_stats"
  shows "(\<forall>metadata input_size.
            try_read_metadata print read_json = Inr (metadata, input_size) \<longrightarrow>
              resolve_metadata print read_json = Inr (metadata, input_size)
              \<and> (\<exists>mean. subscript scaler_stats ''mean'' = Inr mean
                    \<and> py_len mean = Inr input_size))
         \<and> (\<forall>e. try_read_metadata print read_json = Inl e \<and> print (Unreadable e) = Inr () \<longrightarrow>
                resolve_metadata print read_json = Inr (default_metadata, 18))"
proof (intro conjI allI impI)
  fix metadata input_size
  assume t: "try_read_metadata print read_json = Inr (metadata, input_size)"
  then show "resolve_metadata print read_json = Inr (metadata, input_size)"
    by (simp add: resolve_metadata_def)
  from try_read_metadata_Inr [OF t] assms
  show "\<exists>mean. subscript scaler_stats ''mean'' = Inr mean \<and> py_len mean = Inr input_size"
    by auto
next
  fix e
  assume "try_read_metadata print read_json = Inl e \<and> print (Unreadable e) = Inr ()"
  then show "resolve_metadata print read_json = Inr (default_metadata, 18)"
    by (simp add: resolve_metadata_def)
qed

theorem input_size_len_mean_witness:
  "example_files scaler_path = Inr example_scaler
   \<and> try_read_metadata quiet_console example_files = Inr (example_metadata, 3)
   \<and> resolve_metadata quiet_console example_files = Inr (example_metadata, 3)
   \<and> (\<exists>mean. subscript example_scaler ''mean'' = Inr mean \<and> py_len mean = Inr 3)
   \<and> scaler_only scaler_path = Inr example_scaler
   \<and> try_read_metadata quiet_console scaler_only = Inl FileNotFoundError
   \<and> quiet_console (Unreadable FileNotFoundError) = Inr ()
   \<and> resolve_metadata quiet_console scaler_only = Inr (default_metadata, 18)"
proof -
  have q: "quiet_console (Unreadable FileNotFoundError) = Inr ()"
    by (simp add: quiet_console_def)
  from input_size_len_mean [where read_json = example_files and scaler_stats = example_scaler
      and print = quiet_console, OF example_files_read(2)] example_files_try
  have one: "resolve_metadata quiet_console example_files = Inr (example_metadata, 3)
      \<and> (\<exists>mean. subscript example_scaler ''mean'' = Inr mean \<and> py_len mean = Inr 3)"
    by blast
  from input_size_len_mean [where read_json = scaler_only and scaler_stats = example_scaler
      and print = quiet_console, OF scaler_only_read(2)]
    scaler_only_try [of quiet_console] q
  have two: "resolve_metadata quiet_console scaler_only = Inr (default_metadata, 18)"
    by blast
  show ?thesis
    using example_files_read(2) example_files_try scaler_only_read(2)
      scaler_only_try [of quiet_console] q one two
    by blast
qed

text \<open>
  C10. The bytes returned by \<^verbatim>\<open>create_production_tflite_model\<close> (or the exception it
  ends with) are the same for any two runs whose resolved metadata have the same value
  under \<^verbatim>\<open>auc\<close> and whose resolved input sizes are equal, whatever else the metadata
  hold and whatever state the \<^verbatim>\<open>random\<close> module is in.
\<close>

theorem bytes_depend_on_auc_and_input_size:
  assumes "resolve_metadata print1 read_json1 = Inr (metadata1, input_size)"
    and "resolve_metadata print2 read_json2 = Inr (metadata2, input_size)"
    and "subscript metadata1 ''auc'' = subscript metadata2 ''auc''"
  shows "map_sum id fst (create_production_tflite_model R print1 read_json1 g1)
         = map_sum id fst (create_production_tflite_model R print2 read_json2 g2)"
  using build_container_bytes [OF assms(3)]
  by (simp add: create_production_tflite_model_def assms(1,2))

theorem bytes_depend_on_auc_and_input_size_witness:
  "resolve_metadata quiet_console no_files = Inr (default_metadata, 18)
   \<and> resolve_metadata quiet_console nhanes_files = Inr (example_metadata, 18)
   \<and> subscript default_metadata ''auc'' = subscript example_metadata ''auc''
   \<and> subscript default_metadata ''model_type'' \<noteq> subscript example_metadata ''model_type''
   \<and> subscript default_metadata ''parameters'' \<noteq> subscript example_metadata ''parameters''
   \<and> subscript default_metadata ''date_trained'' \<noteq> subscript example_metadata ''date_trained''
   \<and> map_sum id fst (create_production_tflite_model counter_random quiet_console no_files 0)
       = map_sum id fst
           (create_production_tflite_model counter_random quiet_console nhanes_files 5)"
proof -
  have b: "resolve_metadata quiet_console nhanes_files = Inr (example_metadata, 18)"
    using nhanes_files_try by (simp add: resolve_metadata_def)
  have c: "subscript default_metadata ''auc'' = subscript example_metadata ''auc''"
    by (simp add: default_metadata_def example_metadata_def)
  from bytes_depend_on_auc_and_input_size [OF no_files_quiet b c, of counter_random 0 5]
  show ?thesis using no_files_quiet b by (simp add: default_metadata_def example_metadata_def)
qed

section \<open>The auc field read back\<close>

lemma f64_to_f32_infinite:
  assumes "f64_exponent x = 2047" "f64_fraction x = 0"
  shows "\<exists>w. f64_to_f32 x = Inr w \<and> f32_exponent w = 255 \<and> f32_fraction w = 0
           \<and> f32_negative w = f64_negative x"
proof -
  define w :: f32 where "w = of_nat ((if f64_negative x then 2 ^ 31 else 0) + 255 * 2 ^ 23)"
  have c: "f64_to_f32 x = Inr w"
    using assms by (simp add: f64_to_f32_def w_def)
  have "(if f64_negative x then 2 ^ 31 else 0) + 255 * 2 ^ 23 < (2::nat) ^ LENGTH(32)"
    by simp
  then have u: "unat w = (if f64_negative x then 2 ^ 31 else 0) + 255 * 2 ^ 23"
    unfolding w_def by (rule of_nat_inverse [OF refl])
  have "f32_exponent w = 255" "f32_fraction w = 0" "f32_negative w = f64_negative x"
    by (simp_all add: f32_exponent_def f32_fraction_def f32_negative_def u)
  with c show ?thesis by blast
qed

lemma f64_to_f32_exactly:
  assumes "f32_exactly w0 x"
  shows "\<exists>w. f64_to_f32 x = Inr w \<and> f32_exactly w x"
proof -
  consider (fin) "f32_finite w0" "f64_finite x" "f32_value w0 * 2 ^ 925 = f64_value x"
    | (inf) "f64_exponent x = 2047" "f64_fraction x = 0"
    using assms unfolding f32_exactly_def by (elim disjE conjE) simp_all
  then show ?thesis
  proof cases
    case fin
    from f64_to_f32_exact [OF fin(2) fin(1) fin(3) [symmetric]] obtain w where
      "f64_to_f32 x = Inr w" "f32_finite w" "f32_value w = f32_value w0"
      by blast
    then have "f64_to_f32 x = Inr w \<and> f32_exactly w x"
      using fin by (simp add: f32_exactly_def)
    then show ?thesis ..
  next
    case inf
    from f64_to_f32_infinite [OF inf] obtain w where
      "f64_to_f32 x = Inr w" "f32_exponent w = 255" "f32_fraction w = 0"
      "f32_negative w = f64_negative x"
      by blast
    then have "f64_to_f32 x = Inr w \<and> f32_exactly w x"
      using inf by (simp add: f32_exactly_def)
    then show ?thesis ..
  qed
qed

lemma unpack_f32: "(of_nat (le_uint (le_bytes4 (unat w))) :: f32) = w"
proof -
  have "unat w < 2 ^ LENGTH(32)" by (rule unsigned_less)
  then have "le_uint (le_bytes4 (unat w)) = unat w"
    by (intro le_uint_le_bytes4) simp
  then show ?thesis by simp
qed

lemma half_exactly: "f32_exactly f32_pos_half pos_half"
  unfolding f32_exactly_def f32_value_consts f64_value_consts
  by (simp add: f32_finite_def f64_finite_def f32_exponent_def f64_exponent_def
      f32_pos_half_def pos_half_def)

text \<open>
  C8. When \<^verbatim>\<open>metadata['auc']\<close> is a float whose value a binary32 number has exactly, the
  binary32 number read back from bytes 16 to 19 (little-endian) has that same value: the
  conversion \<^verbatim>\<open>struct.pack('<f', ...)\<close> makes does not round it.
\<close>

theorem auc_roundtrip:
  assumes "random_contract R"
    and "0 \<le> model_size" "model_size < 2 ^ 32"
    and "0 \<le> input_size" "input_size < 2 ^ 32"
    and "subscript metadata ''auc'' = Inr (JFloat x)"
    and "f32_exactly w0 x"
  shows "\<exists>out g. build_container R metadata input_size model_size g0 = Inr (out, metadata, g)
           \<and> f32_exactly (of_nat (le_uint (take 4 (drop 16 out)))) x"
proof -
  from f64_to_f32_exactly [OF assms(7)] obtain w where
    w: "f64_to_f32 x = Inr w" "f32_exactly w x"
    by blast
  have p: "struct_pack_f (JFloat x) = Inr (le_bytes4 (unat w))"
    by (simp add: pack_f64_def w(1))
  from build_container_header [OF assms(1-6) p, of g0] obtain out g where
    o: "build_container R metadata input_size model_size g0 = Inr (out, metadata, g)"
      "take 4 (drop 16 out) = le_bytes4 (unat w)"
    by blast
  have "f32_exactly (of_nat (le_uint (take 4 (drop 16 out)))) x"
    unfolding o(2) unpack_f32 by (rule w(2))
  with o(1) show ?thesis by blast
qed

theorem auc_roundtrip_witness:
  "random_contract counter_random
   \<and> (0::int) \<le> 25000000 \<and> (25000000::int) < 2 ^ 32 \<and> (0::int) \<le> 18 \<and> (18::int) < 2 ^ 32
   \<and> subscript half_metadata ''auc'' = Inr (JFloat pos_half)
   \<and> f32_exactly f32_pos_half pos_half
   \<and> (\<exists>out g. build_container counter_random half_metadata 18 25000000 0
                  = Inr (out, half_metadata, g)
         \<and> f32_exactly (of_nat (le_uint (take 4 (drop 16 out)))) pos_half)"
proof -
  have a: "(0::int) \<le> 25000000" "(25000000::int) < 2 ^ 32" "(0::int) \<le> 18" "(18::int) < 2 ^ 32"
    by simp_all
  have l: "subscript half_metadata ''auc'' = Inr (JFloat pos_half)"
    by (simp add: half_metadata_def)
  from auc_roundtrip [OF counter_random_contract a l half_exactly, of 0]
  show ?thesis using counter_random_contract l half_exactly by simp
qed

end
